theory Spec2Isabelle
  imports Main
begin

section \<open>The Ray runner of a system of process applications\<close>

text \<open>
  A shallow embedding of \<^verbatim>\<open>eventsourcing/system/ray.py\<close>: the runner \<^verbatim>\<open>RayRunner\<close>
  and the actor \<^verbatim>\<open>RayProcess\<close>. Python objects are records, mutation is explicit state
  passing, an exception is a value of the type \<open>error\<close>, and a call that may return,
  raise or block is a value of the type \<open>outcome\<close>. The process application wrapped by
  an actor, its readers and the remote-actor substrate are not part of that file: they
  are parameters of the definitions.
\<close>

subsection \<open>Exceptions and outcomes\<close>

type_synonym name = string

datatype error =
    ProgrammingError string
  | AssertionError string
  | AttributeError string
  | PlainException string
  | KeyError
  | IndexError
  | OperationalError
  | RecordConflictError
  | OtherError string

fun class_name :: "error \<Rightarrow> string" where
  "class_name (ProgrammingError m) = ''ProgrammingError''"
| "class_name (AssertionError m) = ''AssertionError''"
| "class_name (AttributeError m) = ''AttributeError''"
| "class_name (PlainException m) = ''Exception''"
| "class_name KeyError = ''KeyError''"
| "class_name IndexError = ''IndexError''"
| "class_name OperationalError = ''OperationalError''"
| "class_name RecordConflictError = ''RecordConflictError''"
| "class_name (OtherError c) = c"

text \<open>
  A method call on a state \<open>'s\<close> returns a value, raises, or blocks; in each case the
  mutations made so far stay. \<open>Blocked\<close> is a \<^verbatim>\<open>Queue.put\<close> on a full queue: the caller
  waits there until another thread takes an item.
\<close>

datatype ('a, 's) outcome =
    is_Returned: Returned 'a 's
  | is_Raised: Raised error 's
  | is_Blocked: Blocked 's

subsection \<open>Bounded queues\<close>

text \<open>\<^verbatim>\<open>Queue(maxsize=100)\<close>: first in, first out; \<^verbatim>\<open>put\<close> blocks while the queue is full.\<close>

definition maxsize :: nat where
  "maxsize = 100"

definition queue_put :: "'a list \<Rightarrow> 'a \<Rightarrow> 'a list option" where
  "queue_put q x = (if length q < maxsize then Some (q @ [x]) else None)"

definition queue_get :: "'a list \<Rightarrow> ('a \<times> 'a list) option" where
  "queue_get q = (case q of [] \<Rightarrow> None | x # r \<Rightarrow> Some (x, r))"

subsection \<open>Notifications and prompts\<close>

text \<open>
  A notification is a dictionary; the actor reads its \<^verbatim>\<open>"id"\<close> and, with \<^verbatim>\<open>get\<close>, its
  \<^verbatim>\<open>"causal_dependencies"\<close> (\<open>None\<close> when the key is absent), and passes the whole
  notification to the process application.
\<close>

record notification =
  nid :: int
  causal_dependencies :: "string option"
  payload :: string

text \<open>
  The prompts that travel through the push-prompt queue: the one published by the process
  application (\<^verbatim>\<open>PromptToPull\<close>) and the one built by the actor (\<^verbatim>\<open>RayPrompt\<close>), each
  with a process name and a pipeline id. The queue also carries \<^verbatim>\<open>None\<close>, put by
  \<^verbatim>\<open>stop\<close>.
\<close>

datatype prompt_message = PromptToPull name int | RayPrompt name int

type_synonym actor_id = nat

text \<open>\<^verbatim>\<open>RayNotificationLog(upstream_process, 5, ray.get)\<close>: the upstream actor and the section size.\<close>

datatype notification_log = RayNotificationLog actor_id nat

subsection \<open>The three loops of an actor, as threads with a program counter\<close>

text \<open>
  Each loop is a thread. Its program counter names the place where it waits (for a signal,
  a lock, a queue) together with its local variables at that place.
\<close>

type_synonym 'e item = "'e \<times> int \<times> name"

datatype 'e puller =
    PullerWaiting
  | PullerSelected "name list"
  | PullerScanning "name list"
  | PullerChecking "name list" name "notification list"
  | PullerPutting "name list" name "notification list" "'e item"
  | PullerExited
  | PullerCrashed error

datatype 'e processor =
    ProcessorLoop
  | ProcessorGetting
  | ProcessorGot "'e item"
  | ProcessorFailed error
  | ProcessorPrompting prompt_message
  | ProcessorExited
  | ProcessorCrashed error

datatype pusher =
    PusherLoop
  | PusherGetting
  | PusherGot "prompt_message option"
  | PusherSending "prompt_message option" "(name \<times> actor_id) list" "actor_id list"
  | PusherAwaiting "actor_id list"
  | PusherExited
  | PusherCrashed error

subsection \<open>Classes handed to the runner and to the actor\<close>

text \<open>
  Of a process class the code asks \<^verbatim>\<open>isinstance(process_class,
  ApplicationWithConcreteInfrastructure)\<close>; of the infrastructure class, whether it is set
  and \<^verbatim>\<open>issubclass(infrastructure_class, ApplicationWithConcreteInfrastructure)\<close>.
  Each record carries the class's name and the answer.
\<close>

record process_class =
  class_id :: string
  concrete_instance :: bool

record infrastructure_class =
  infrastructure_id :: string
  concrete_subclass :: bool

subsection \<open>The process application, a parameter\<close>

text \<open>
  The wrapped \<^verbatim>\<open>ProcessApplication\<close> is defined elsewhere. Its state is a type \<open>'p\<close> and
  the operations the actor calls on it are the fields of a record: each takes the state and
  returns the new state, or an exception.
  \<^item> \<open>construct c i pid t\<close> is \<^verbatim>\<open>process_class(pipeline_id=pid, setup_table=t)\<close>, where the
    class is \<open>c\<close>, mixed with \<open>i\<close> when \<open>i\<close> is given;
  \<^item> \<open>follow p u l\<close> is \<^verbatim>\<open>process.follow(u, l)\<close>;
  \<^item> \<open>readers p\<close> is the keys of \<^verbatim>\<open>process.readers\<close>;
  \<^item> \<open>reader_read p u\<close> is \<^verbatim>\<open>process.readers[u].read()\<close> for a key \<open>u\<close>, the
    notifications taken as a list;
  \<^item> \<open>check_causal_dependencies p u d\<close> is \<open>None\<close> when the call returns and \<open>Some e\<close>
    when it raises \<open>e\<close>;
  \<^item> \<open>process_upstream_event p ev i u\<close> returns the new events or raises;
  \<^item> \<open>truth p\<close> is the truth value of the object in \<^verbatim>\<open>if self.process\<close>;
  \<^item> \<open>is_prompt events\<close> is the predicate \<^verbatim>\<open>is_prompt\<close> of
    \<^verbatim>\<open>eventsourcing.application.process\<close>, with which \<^verbatim>\<open>init\<close> subscribes the hook
    \<^verbatim>\<open>enqueue_prompt\<close>: it tells of a published batch whether the hook is called with it.
  An application that publishes a batch of prompts reaches the hook through that
  subscription; a publication is a step of its own in the executions of an actor.
\<close>

record ('p, 'e) process_application =
  construct :: "process_class \<Rightarrow> infrastructure_class option \<Rightarrow> int \<Rightarrow> bool \<Rightarrow> error + 'p"
  follow :: "'p \<Rightarrow> name \<Rightarrow> notification_log \<Rightarrow> error + 'p"
  app_name :: "'p \<Rightarrow> name"
  app_pipeline_id :: "'p \<Rightarrow> int"
  truth :: "'p \<Rightarrow> bool"
  readers :: "'p \<Rightarrow> name list"
  reader_read :: "'p \<Rightarrow> name \<Rightarrow> (error + notification list) \<times> 'p"
  check_causal_dependencies :: "'p \<Rightarrow> name \<Rightarrow> string option \<Rightarrow> error option"
  get_event_from_notification :: "'p \<Rightarrow> notification \<Rightarrow> error + 'e"
  process_upstream_event :: "'p \<Rightarrow> 'e \<Rightarrow> int \<Rightarrow> name \<Rightarrow> (error + 'e list) \<times> 'p"
  set_reader_position_from_tracking_records :: "'p \<Rightarrow> name \<Rightarrow> error + 'p"
  is_prompt :: "prompt_message list \<Rightarrow> bool"

subsection \<open>The actor\<close>

text \<open>
  The attributes of \<^verbatim>\<open>RayProcess\<close>. An attribute that \<^verbatim>\<open>__init__\<close> does not assign
  (\<^verbatim>\<open>process\<close>, \<^verbatim>\<open>upstream_logs\<close>, \<^verbatim>\<open>downstream_processes\<close>, the three threads) is an
  option: \<open>None\<close> until \<^verbatim>\<open>init\<close> or \<^verbatim>\<open>run\<close> assigns it, and reading it then raises
  \<^verbatim>\<open>AttributeError\<close>. \<open>subscribed\<close> tells whether \<^verbatim>\<open>enqueue_prompt\<close> is subscribed
  to the prompts of the process application. \<open>event_reading_lock\<close> is true while the lock
  is held. A dictionary whose order of iteration matters is an association list; the set
  \<^verbatim>\<open>prompted_names\<close> is a set.
\<close>

record ('p, 'e) ray_process =
  application_process_class :: process_class
  infrastructure :: "infrastructure_class option"
  pipeline_id :: int
  setup_tables :: bool
  process :: "'p option"
  upstream_logs :: "(name \<times> notification_log) list option"
  downstream_processes :: "(name \<times> actor_id) list option"
  push_prompt_queue :: "prompt_message option list"
  upstream_event_queue :: "'e item list"
  prompted_names :: "name set"
  has_been_prompted :: bool
  has_been_stopped :: bool
  event_reading_lock :: bool
  subscribed :: bool
  pull_notifications_thread :: "'e puller option"
  process_events_thread :: "'e processor option"
  push_prompts_thread :: "pusher option"

text \<open>\<^verbatim>\<open>RayProcess.__init__\<close>: empty queues, no pending name, both signals clear.\<close>

definition RayProcess_init ::
  "process_class \<Rightarrow> infrastructure_class option \<Rightarrow> int \<Rightarrow> bool \<Rightarrow> ('p, 'e) ray_process" where
  "RayProcess_init c i pid t =
     \<lparr> application_process_class = c, infrastructure = i,
       pipeline_id = pid, setup_tables = t, process = None, upstream_logs = None,
       downstream_processes = None, push_prompt_queue = [],
       upstream_event_queue = [], prompted_names = {},
       has_been_prompted = False, has_been_stopped = False,
       event_reading_lock = False, subscribed = False,
       pull_notifications_thread = None, process_events_thread = None,
       push_prompts_thread = None \<rparr>"

subsection \<open>\<^verbatim>\<open>init\<close>\<close>

text \<open>
  Modelled from the spec: \<^verbatim>\<open>subscribe\<close> and \<^verbatim>\<open>unsubscribe\<close> of
  \<^verbatim>\<open>eventsourcing.domain.model.events\<close> are not part of \<^verbatim>\<open>ray.py\<close>. The spec says that
  \<^verbatim>\<open>init\<close> subscribes the actor's outbound-prompt hook and that \<^verbatim>\<open>stop\<close> unsubscribes
  it: after the one the hook is subscribed, after the other it is not.
\<close>

definition subscribe :: "('p, 'e) ray_process \<Rightarrow> ('p, 'e) ray_process" where
  "subscribe s = s\<lparr>subscribed := True\<rparr>"

definition unsubscribe :: "('p, 'e) ray_process \<Rightarrow> ('p, 'e) ray_process" where
  "unsubscribe s = s\<lparr>subscribed := False\<rparr>"

text \<open>The loop of \<^verbatim>\<open>init\<close> over \<^verbatim>\<open>upstream_logs.items()\<close>; it stops at the first exception.\<close>

fun follow_all ::
  "('p, 'e) process_application \<Rightarrow> 'p \<Rightarrow> (name \<times> notification_log) list \<Rightarrow> error option \<times> 'p" where
  "follow_all A p [] = (None, p)"
| "follow_all A p ((u, l) # logs) =
     (case follow A p u l of
        Inl e \<Rightarrow> (Some e, p)
      | Inr p' \<Rightarrow> follow_all A p' logs)"

definition init ::
  "('p, 'e) process_application \<Rightarrow> ('p, 'e) ray_process \<Rightarrow>
   (name \<times> notification_log) list \<Rightarrow> (name \<times> actor_id) list \<Rightarrow>
   (unit, ('p, 'e) ray_process) outcome" where
  "init A s0 logs downstream =
     (let s = subscribe (s0\<lparr>upstream_logs := Some logs, downstream_processes := Some downstream\<rparr>)
      in if \<not> concrete_instance (application_process_class s) \<and> infrastructure s = None
         then Raised (ProgrammingError ''infrastructure_class is not set'') s
         else
           (case construct A (application_process_class s)
                   (if concrete_instance (application_process_class s) then None
                    else infrastructure s)
                   (pipeline_id s) (setup_tables s) of
              Inl e \<Rightarrow> Raised e s
            | Inr p \<Rightarrow>
                (case follow_all A p logs of
                   (Some e, p') \<Rightarrow> Raised e (s\<lparr>process := Some p'\<rparr>)
                 | (None, p') \<Rightarrow> Returned () (s\<lparr>process := Some p'\<rparr>))))"

subsection \<open>\<^verbatim>\<open>reset_readers\<close> and \<^verbatim>\<open>run\<close>\<close>

fun reset_all :: "('p, 'e) process_application \<Rightarrow> 'p \<Rightarrow> name list \<Rightarrow> error option \<times> 'p" where
  "reset_all A p [] = (None, p)"
| "reset_all A p (u # us) =
     (case set_reader_position_from_tracking_records A p u of
        Inl e \<Rightarrow> (Some e, p)
      | Inr p' \<Rightarrow> reset_all A p' us)"

definition reset_readers ::
  "('p, 'e) process_application \<Rightarrow> ('p, 'e) ray_process \<Rightarrow> (unit, ('p, 'e) ray_process) outcome" where
  "reset_readers A s =
     (case process s of
        None \<Rightarrow> Raised (AttributeError ''process'') s
      | Some p \<Rightarrow>
          (case reset_all A p (readers A p) of
             (Some e, p') \<Rightarrow> Raised e (s\<lparr>process := Some p'\<rparr>)
           | (None, p') \<Rightarrow> Returned () (s\<lparr>process := Some p'\<rparr>)))"

text \<open>\<^verbatim>\<open>run\<close> resets the readers, then starts the three threads, each at the head of its loop.\<close>

definition run ::
  "('p, 'e) process_application \<Rightarrow> ('p, 'e) ray_process \<Rightarrow> (unit, ('p, 'e) ray_process) outcome" where
  "run A s =
     (case reset_readers A s of
        Returned u s' \<Rightarrow>
          Returned () (s'\<lparr>pull_notifications_thread := Some PullerWaiting,
                          process_events_thread := Some ProcessorLoop,
                          push_prompts_thread := Some PusherLoop\<rparr>)
      | other \<Rightarrow> other)"

subsection \<open>\<^verbatim>\<open>call\<close> and its retry\<close>

text \<open>
  Modelled from the spec: the decorator \<^verbatim>\<open>retry\<close> of
  \<^verbatim>\<open>eventsourcing.domain.model.decorators\<close> is not part of \<^verbatim>\<open>ray.py\<close>. The spec has a
  bounded retry with a fixed backoff for transient errors: the function is called again
  after an exception of the retried class, until it has failed \<open>max_attempts\<close> times; the
  last of these exceptions, and at once any exception of another class, goes to the caller.
  \<open>attempts\<close> counts the failures so far; the second component of the result is the number
  of times the function was called.
\<close>

function retry ::
  "(error \<Rightarrow> bool) \<Rightarrow> nat \<Rightarrow> ('s \<Rightarrow> ('a, 's) outcome) \<Rightarrow> nat \<Rightarrow> 's \<Rightarrow> ('a, 's) outcome \<times> nat" where
  "retry exc max_attempts func attempts s =
     (case func s of
        Raised e s' \<Rightarrow>
          if exc e \<and> attempts + 1 < max_attempts
          then retry exc max_attempts func (attempts + 1) s'
          else (Raised e s', attempts + 1)
      | other \<Rightarrow> (other, attempts + 1))"
  by pat_completeness auto
termination
  by (relation "measure (\<lambda>(exc, max_attempts, func, attempts, s). max_attempts - attempts)") auto

declare retry.simps [simp del]

text \<open>
  The body of \<^verbatim>\<open>call\<close>. \<open>methods\<close> is \<^verbatim>\<open>getattr\<close> on the process application: the method
  of that name, which takes the arguments and the state of the application, or \<open>None\<close> when
  there is no such attribute.
\<close>

definition call_body ::
  "('p, 'e) process_application \<Rightarrow> (name \<Rightarrow> ('a \<Rightarrow> 'p \<Rightarrow> (error + 'v) \<times> 'p) option) \<Rightarrow>
   name \<Rightarrow> 'a \<Rightarrow> ('p, 'e) ray_process \<Rightarrow> ('v, ('p, 'e) ray_process) outcome" where
  "call_body A methods application_method_name args s =
     (case process s of
        None \<Rightarrow> Raised (AttributeError ''process'') s
      | Some p \<Rightarrow>
          if truth A p then
            (case methods application_method_name of
               None \<Rightarrow> Raised (AttributeError application_method_name) s
             | Some method \<Rightarrow>
                 (case method args p of
                    (Inl e, p') \<Rightarrow> Raised e (s\<lparr>process := Some p'\<rparr>)
                  | (Inr v, p') \<Rightarrow> Returned v (s\<lparr>process := Some p'\<rparr>)))
          else Raised (PlainException (''Can't call method '' @ application_method_name @
                                        '' before process exists'')) s)"

text \<open>\<^verbatim>\<open>@retry(OperationalError, max_attempts=10, wait=0.1)\<close>\<close>

definition call ::
  "('p, 'e) process_application \<Rightarrow> (name \<Rightarrow> ('a \<Rightarrow> 'p \<Rightarrow> (error + 'v) \<times> 'p) option) \<Rightarrow>
   name \<Rightarrow> 'a \<Rightarrow> ('p, 'e) ray_process \<Rightarrow> ('v, ('p, 'e) ray_process) outcome \<times> nat" where
  "call A methods application_method_name args s =
     retry (\<lambda>e. e = OperationalError) 10 (call_body A methods application_method_name args) 0 s"

subsection \<open>\<^verbatim>\<open>prompt\<close>\<close>

text \<open>
  \<^verbatim>\<open>isinstance(prompt, PromptToPull)\<close> holds of a \<^verbatim>\<open>PromptToPull\<close>; \<^verbatim>\<open>RayPrompt\<close> is
  declared in another file, and whether it is a \<^verbatim>\<open>PromptToPull\<close> is the parameter
  \<open>ray_is_pull\<close>. The argument is \<open>None\<close> by default.
\<close>

fun is_prompt_to_pull :: "bool \<Rightarrow> prompt_message \<Rightarrow> bool" where
  "is_prompt_to_pull ray_is_pull (PromptToPull n i) = True"
| "is_prompt_to_pull ray_is_pull (RayPrompt n i) = ray_is_pull"

fun prompt_process_name :: "prompt_message \<Rightarrow> name" where
  "prompt_process_name (PromptToPull n i) = n"
| "prompt_process_name (RayPrompt n i) = n"

definition prompt ::
  "bool \<Rightarrow> ('p, 'e) ray_process \<Rightarrow> prompt_message option \<Rightarrow> ('p, 'e) ray_process" where
  "prompt ray_is_pull s m =
     (case m of
        None \<Rightarrow> s
      | Some pm \<Rightarrow>
          if is_prompt_to_pull ray_is_pull pm
          then s\<lparr>prompted_names := insert (prompt_process_name pm) (prompted_names s),
                   has_been_prompted := True\<rparr>
          else s)"

subsection \<open>\<^verbatim>\<open>stop\<close>\<close>

text \<open>
  \<^verbatim>\<open>stop\<close> sets the stop signal, puts \<^verbatim>\<open>None\<close> on the push-prompt queue (it blocks there
  while the queue is full), sets the prompted signal, joins the puller and the pusher for
  three seconds each and unsubscribes the hook. \<^verbatim>\<open>join(timeout=3)\<close> returns whether the
  thread has ended or not and changes nothing; reading a thread attribute that \<^verbatim>\<open>run\<close> has
  not assigned raises. \<open>stop_signal\<close> is the first line of \<^verbatim>\<open>stop\<close> and \<open>stop_wake\<close> the
  rest.
\<close>

definition stop_signal :: "('p, 'e) ray_process \<Rightarrow> ('p, 'e) ray_process" where
  "stop_signal s = s\<lparr>has_been_stopped := True\<rparr>"

definition stop_wake :: "('p, 'e) ray_process \<Rightarrow> (unit, ('p, 'e) ray_process) outcome" where
  "stop_wake s =
     (case queue_put (push_prompt_queue s) None of
        None \<Rightarrow> Blocked s
      | Some q \<Rightarrow>
          (let s' = s\<lparr>push_prompt_queue := q, has_been_prompted := True\<rparr>
           in if pull_notifications_thread s' = None
              then Raised (AttributeError ''pull_notifications_thread'') s'
              else if push_prompts_thread s' = None
              then Raised (AttributeError ''push_prompts_thread'') s'
              else Returned () (unsubscribe s')))"

definition stop :: "('p, 'e) ray_process \<Rightarrow> (unit, ('p, 'e) ray_process) outcome" where
  "stop s = stop_wake (stop_signal s)"

text \<open>Two calls of \<^verbatim>\<open>stop\<close> in a row: the second is made when the first has returned.\<close>

definition stop_twice :: "('p, 'e) ray_process \<Rightarrow> (unit, ('p, 'e) ray_process) outcome" where
  "stop_twice s =
     (case stop s of
        Returned u s' \<Rightarrow> stop s'
      | other \<Rightarrow> other)"

subsection \<open>The outbound hook\<close>

text \<open>
  \<^verbatim>\<open>enqueue_prompt(prompts)\<close> is \<^verbatim>\<open>self.push_prompt_queue.put(prompts[0])\<close>: an empty
  batch raises \<^verbatim>\<open>IndexError\<close>, a full queue blocks.
\<close>

definition enqueue_prompt ::
  "('p, 'e) ray_process \<Rightarrow> prompt_message list \<Rightarrow> (unit, ('p, 'e) ray_process) outcome" where
  "enqueue_prompt s prompts =
     (case prompts of
        [] \<Rightarrow> Raised IndexError s
      | p # _ \<Rightarrow>
          (case queue_put (push_prompt_queue s) (Some p) of
             None \<Rightarrow> Blocked s
           | Some q \<Rightarrow> Returned () (s\<lparr>push_prompt_queue := q\<rparr>)))"

text \<open>
  Modelled from the spec: \<^verbatim>\<open>publish\<close> of \<^verbatim>\<open>eventsourcing.domain.model.events\<close> is not
  part of \<^verbatim>\<open>ray.py\<close>. The spec has the hook subscribed to the events the wrapped process
  raises locally, from \<^verbatim>\<open>init\<close> until \<^verbatim>\<open>stop\<close> unsubscribes it; \<^verbatim>\<open>init\<close> subscribes it
  with the predicate \<^verbatim>\<open>is_prompt\<close>. So a published batch is given to the hook when the
  hook is subscribed and the predicate holds of the batch, and to nobody otherwise.
\<close>

definition publish ::
  "('p, 'e) process_application \<Rightarrow> ('p, 'e) ray_process \<Rightarrow> prompt_message list \<Rightarrow>
   (unit, ('p, 'e) ray_process) outcome" where
  "publish A s events =
     (if subscribed s \<and> is_prompt A events then enqueue_prompt s events
      else Returned () s)"

subsection \<open>What a step of a thread lets the outside see\<close>

text \<open>
  A step of a thread returns, beside the new state, the calls it has made on its
  collaborators: a read of a reader with the notifications it returned, a causal-dependency
  check with its result (\<open>None\<close> when it returned, the exception when it raised), a put
  on the event queue, a call of \<^verbatim>\<open>process_upstream_event\<close>,
  a full reset, a put on the push-prompt queue, a prompt sent to a downstream actor, and
  an exception raised in the thread.
\<close>

datatype 'e event =
    ReadEv name "notification list"
  | CheckEv name notification "error option"
  | PutEv "'e item"
  | HandedEv "'e item"
  | ResetEv
  | PromptPutEv prompt_message
  | SentEv actor_id "prompt_message option"
  | FaultEv error

subsection \<open>The puller: \<^verbatim>\<open>process_notifications\<close>\<close>

text \<open>
  One step of the loop, from one waiting place to the next.
  \<^item> \<open>PullerWaiting\<close>: the head of the loop. With the stop signal set the loop ends.
    Otherwise the thread waits for the prompted signal; when the signal is not set the wait
    times out and the names are the keys of \<^verbatim>\<open>upstream_logs\<close>; when it is set the signal
    is cleared and the pending set is taken and replaced by the empty set, under the
    lock of the pending names. A Python set is iterated in an order of its own: \<open>order\<close>
    is that order, any list of the elements of the set without repetition.
  \<^item> \<open>PullerSelected\<close>: the thread takes the event-reading lock, when it is free.
  \<^item> \<open>PullerScanning\<close>: the next name; its reader is looked up and read. With no name
    left the lock is released and the loop starts again.
  \<^item> \<open>PullerChecking\<close>: the next notification; its causal dependencies are checked, then
    its event is built.
  \<^item> \<open>PullerPutting\<close>: the item is put on the event queue, when the queue has room.
  An exception ends the thread; raised under the event-reading lock, it releases the lock.
  The result \<open>None\<close> is a thread that cannot move: it waits for the lock or for room.
\<close>

fun process_notifications ::
  "('p, 'e) process_application \<Rightarrow> name list \<Rightarrow> 'e puller \<Rightarrow> ('p, 'e) ray_process \<Rightarrow>
   ('e puller \<times> ('p, 'e) ray_process \<times> 'e event list) option" where
  "process_notifications A order PullerWaiting s =
     (if has_been_stopped s then Some (PullerExited, s, [])
      else if \<not> has_been_prompted s then
        (case upstream_logs s of
           None \<Rightarrow> Some (PullerCrashed (AttributeError ''upstream_logs''), s,
                         [FaultEv (AttributeError ''upstream_logs'')])
         | Some logs \<Rightarrow> Some (PullerSelected (map fst logs), s, []))
      else if distinct order \<and> set order = prompted_names s then
        Some (PullerSelected order, s\<lparr>has_been_prompted := False, prompted_names := {}\<rparr>, [])
      else None)"
| "process_notifications A order (PullerSelected names) s =
     (if event_reading_lock s then None
      else Some (PullerScanning names, s\<lparr>event_reading_lock := True\<rparr>, []))"
| "process_notifications A order (PullerScanning []) s =
     Some (PullerWaiting, s\<lparr>event_reading_lock := False\<rparr>, [])"
| "process_notifications A order (PullerScanning (upstream_name # names)) s =
     (case process s of
        None \<Rightarrow> Some (PullerCrashed (AttributeError ''process''),
                      s\<lparr>event_reading_lock := False\<rparr>, [FaultEv (AttributeError ''process'')])
      | Some p \<Rightarrow>
          if upstream_name \<notin> set (readers A p)
          then Some (PullerCrashed KeyError, s\<lparr>event_reading_lock := False\<rparr>, [FaultEv KeyError])
          else
            (case reader_read A p upstream_name of
               (Inl e, p') \<Rightarrow>
                 Some (PullerCrashed e, s\<lparr>process := Some p', event_reading_lock := False\<rparr>,
                       [FaultEv e])
             | (Inr notifications, p') \<Rightarrow>
                 Some (PullerChecking names upstream_name notifications,
                       s\<lparr>process := Some p'\<rparr>, [ReadEv upstream_name notifications])))"
| "process_notifications A order (PullerChecking names upstream_name []) s =
     Some (PullerScanning names, s, [])"
| "process_notifications A order (PullerChecking names upstream_name (n # notifications)) s =
     (case process s of
        None \<Rightarrow> Some (PullerCrashed (AttributeError ''process''),
                      s\<lparr>event_reading_lock := False\<rparr>, [FaultEv (AttributeError ''process'')])
      | Some p \<Rightarrow>
          (case check_causal_dependencies A p upstream_name (causal_dependencies n) of
             Some e \<Rightarrow> Some (PullerCrashed e, s\<lparr>event_reading_lock := False\<rparr>,
                            [CheckEv upstream_name n (Some e), FaultEv e])
           | None \<Rightarrow>
               (case get_event_from_notification A p n of
                  Inl e \<Rightarrow> Some (PullerCrashed e, s\<lparr>event_reading_lock := False\<rparr>,
                                 [CheckEv upstream_name n None, FaultEv e])
                | Inr ev \<Rightarrow>
                    Some (PullerPutting names upstream_name notifications
                            (ev, nid n, upstream_name),
                          s, [CheckEv upstream_name n None]))))"
| "process_notifications A order (PullerPutting names upstream_name notifications x) s =
     (case queue_put (upstream_event_queue s) x of
        None \<Rightarrow> None
      | Some q \<Rightarrow> Some (PullerChecking names upstream_name notifications,
                        s\<lparr>upstream_event_queue := q\<rparr>, [PutEv x]))"
| "process_notifications A order PullerExited s = None"
| "process_notifications A order (PullerCrashed e) s = None"

subsection \<open>The processor: \<^verbatim>\<open>process_events\<close>\<close>

text \<open>
  \<^item> \<open>ProcessorLoop\<close>: the head of the loop. With the stop signal set the loop ends.
  \<^item> \<open>ProcessorGetting\<close>: the thread is in \<^verbatim>\<open>get(timeout=1)\<close>. It takes the first item of
    the event queue; on an empty queue the \<^verbatim>\<open>get\<close> times out, and the loop ends when the
    stop signal is set and starts again otherwise.
  \<^item> \<open>ProcessorGot\<close>: with the stop signal set the loop ends and the item is lost. Otherwise
    the event is handed to \<^verbatim>\<open>process_upstream_event\<close>. An exception is caught. Without
    one, when there are new events the thread builds the prompt with the name and the
    pipeline id of the process.
  \<^item> \<open>ProcessorFailed\<close>: the handler of the exception. It takes the event-reading lock, when
    it is free, resets the readers, clears the event queue, adds every key of
    \<^verbatim>\<open>upstream_logs\<close> to the pending names and sets the prompted signal. An exception
    raised there is not caught: it ends the thread and releases the lock.
  \<^item> \<open>ProcessorPrompting\<close>: the prompt is put on the push-prompt queue, when it has room.
\<close>

fun process_events ::
  "('p, 'e) process_application \<Rightarrow> 'e processor \<Rightarrow> ('p, 'e) ray_process \<Rightarrow>
   ('e processor \<times> ('p, 'e) ray_process \<times> 'e event list) option" where
  "process_events A ProcessorLoop s =
     (if has_been_stopped s then Some (ProcessorExited, s, [])
      else Some (ProcessorGetting, s, []))"
| "process_events A ProcessorGetting s =
     (case queue_get (upstream_event_queue s) of
        None \<Rightarrow>
          if has_been_stopped s then Some (ProcessorExited, s, [])
          else Some (ProcessorLoop, s, [])
      | Some (x, q) \<Rightarrow> Some (ProcessorGot x, s\<lparr>upstream_event_queue := q\<rparr>, []))"
| "process_events A (ProcessorGot (domain_event, notification_id, upstream_name)) s =
     (if has_been_stopped s then Some (ProcessorExited, s, [])
      else
        (case process s of
           None \<Rightarrow> Some (ProcessorFailed (AttributeError ''process''), s,
                         [FaultEv (AttributeError ''process'')])
         | Some p \<Rightarrow>
             (case process_upstream_event A p domain_event notification_id upstream_name of
                (Inl e, p') \<Rightarrow>
                  Some (ProcessorFailed e, s\<lparr>process := Some p'\<rparr>,
                        [HandedEv (domain_event, notification_id, upstream_name), FaultEv e])
              | (Inr new_events, p') \<Rightarrow>
                  Some (if new_events \<noteq> []
                        then ProcessorPrompting (RayPrompt (app_name A p') (app_pipeline_id A p'))
                        else ProcessorLoop,
                        s\<lparr>process := Some p'\<rparr>,
                        [HandedEv (domain_event, notification_id, upstream_name)]))))"
| "process_events A (ProcessorFailed e) s =
     (if event_reading_lock s then None
      else
        (case reset_readers A s of
           Returned u s' \<Rightarrow>
             (case upstream_logs s' of
                None \<Rightarrow> Some (ProcessorCrashed (AttributeError ''upstream_logs''),
                              s'\<lparr>upstream_event_queue := []\<rparr>,
                              [FaultEv (AttributeError ''upstream_logs'')])
              | Some logs \<Rightarrow>
                  Some (ProcessorLoop,
                        s'\<lparr>upstream_event_queue := [],
                            prompted_names := prompted_names s' \<union> set (map fst logs),
                            has_been_prompted := True\<rparr>,
                        [ResetEv]))
         | Raised e' s' \<Rightarrow> Some (ProcessorCrashed e', s', [FaultEv e'])
         | Blocked s' \<Rightarrow> None))"
| "process_events A (ProcessorPrompting m) s =
     (case queue_put (push_prompt_queue s) (Some m) of
        None \<Rightarrow> None
      | Some q \<Rightarrow> Some (ProcessorLoop, s\<lparr>push_prompt_queue := q\<rparr>, [PromptPutEv m]))"
| "process_events A ProcessorExited s = None"
| "process_events A (ProcessorCrashed e) s = None"

subsection \<open>The pusher: \<^verbatim>\<open>push_prompts\<close>\<close>

text \<open>
  \<^item> \<open>PusherLoop\<close>: the head of the loop. With the stop signal set the loop ends.
  \<^item> \<open>PusherGetting\<close>: the thread is in \<^verbatim>\<open>get(timeout=10)\<close>. It takes the first prompt
    of the push-prompt queue; on an empty queue the \<^verbatim>\<open>get\<close> times out, and the loop ends
    when the stop signal is set and starts again otherwise.
  \<^item> \<open>PusherGot\<close>: with the stop signal set the loop ends; otherwise the loop over
    \<^verbatim>\<open>downstream_processes.items()\<close> starts, with no response yet.
  \<^item> \<open>PusherSending\<close>: the prompt is sent to the next downstream actor and its response
    is appended; then, with the stop signal set, the loop over the downstream actors is
    left. With no actor left it ends.
  \<^item> \<open>PusherAwaiting\<close>: \<^verbatim>\<open>ray.get\<close> on the responses; \<open>response\<close> is what it does, return
    or raise.
\<close>

fun push_prompts ::
  "error option \<Rightarrow> pusher \<Rightarrow> ('p, 'e) ray_process \<Rightarrow>
   (pusher \<times> ('p, 'e) ray_process \<times> 'e event list) option" where
  "push_prompts response PusherLoop s =
     (if has_been_stopped s then Some (PusherExited, s, [])
      else Some (PusherGetting, s, []))"
| "push_prompts response PusherGetting s =
     (case queue_get (push_prompt_queue s) of
        None \<Rightarrow>
          if has_been_stopped s then Some (PusherExited, s, [])
          else Some (PusherLoop, s, [])
      | Some (x, q) \<Rightarrow> Some (PusherGot x, s\<lparr>push_prompt_queue := q\<rparr>, []))"
| "push_prompts response (PusherGot m) s =
     (if has_been_stopped s then Some (PusherExited, s, [])
      else
        (case downstream_processes s of
           None \<Rightarrow> Some (PusherCrashed (AttributeError ''downstream_processes''), s,
                         [FaultEv (AttributeError ''downstream_processes'')])
         | Some downstream \<Rightarrow> Some (PusherSending m downstream [], s, [])))"
| "push_prompts response (PusherSending m [] prompt_response_ids) s =
     Some (PusherAwaiting prompt_response_ids, s, [])"
| "push_prompts response
     (PusherSending m ((downstream_name, ray_process) # downstream) prompt_response_ids) s =
     Some (if has_been_stopped s
           then PusherAwaiting (prompt_response_ids @ [ray_process])
           else PusherSending m downstream (prompt_response_ids @ [ray_process]),
           s, [SentEv ray_process m])"
| "push_prompts response (PusherAwaiting prompt_response_ids) s =
     (case response of
        None \<Rightarrow> Some (PusherLoop, s, [])
      | Some e \<Rightarrow> Some (PusherCrashed e, s, [FaultEv e]))"
| "push_prompts response PusherExited s = None"
| "push_prompts response (PusherCrashed e) s = None"

subsection \<open>Executions of an actor\<close>

text \<open>
  What can happen to a running actor, one action at a time: a step of one of its threads,
  a prompt from another actor, a batch of prompts published by the process application,
  and \<^verbatim>\<open>stop\<close>, in two parts since it may wait between them:
  setting the stop signal, and the rest. A thread that has not been started does not
  move. An action that cannot happen in a state gives \<open>None\<close>.
\<close>

datatype action =
    Pull "name list"
  | Process
  | Push "error option"
  | Prompt bool "prompt_message option"
  | Publish "prompt_message list"
  | StopSignal
  | StopWake

fun step ::
  "('p, 'e) process_application \<Rightarrow> action \<Rightarrow> ('p, 'e) ray_process \<Rightarrow>
   (('p, 'e) ray_process \<times> 'e event list) option" where
  "step A (Pull order) s =
     (case pull_notifications_thread s of
        None \<Rightarrow> None
      | Some pc \<Rightarrow>
          (case process_notifications A order pc s of
             None \<Rightarrow> None
           | Some (pc', s', evs) \<Rightarrow> Some (s'\<lparr>pull_notifications_thread := Some pc'\<rparr>, evs)))"
| "step A Process s =
     (case process_events_thread s of
        None \<Rightarrow> None
      | Some pc \<Rightarrow>
          (case process_events A pc s of
             None \<Rightarrow> None
           | Some (pc', s', evs) \<Rightarrow> Some (s'\<lparr>process_events_thread := Some pc'\<rparr>, evs)))"
| "step A (Push response) s =
     (case push_prompts_thread s of
        None \<Rightarrow> None
      | Some pc \<Rightarrow>
          (case push_prompts response pc s of
             None \<Rightarrow> None
           | Some (pc', s', evs) \<Rightarrow> Some (s'\<lparr>push_prompts_thread := Some pc'\<rparr>, evs)))"
| "step A (Prompt ray_is_pull m) s = Some (prompt ray_is_pull s m, [])"
| "step A (Publish events) s =
     (case publish A s events of
        Returned u s' \<Rightarrow> Some (s', [])
      | Raised e s' \<Rightarrow> Some (s', [FaultEv e])
      | Blocked s' \<Rightarrow> None)"
| "step A StopSignal s = Some (stop_signal s, [])"
| "step A StopWake s =
     (case stop_wake s of
        Returned u s' \<Rightarrow> Some (s', [])
      | Raised e s' \<Rightarrow> Some (s', [FaultEv e])
      | Blocked s' \<Rightarrow> None)"

fun exec ::
  "('p, 'e) process_application \<Rightarrow> action list \<Rightarrow> ('p, 'e) ray_process \<Rightarrow>
   (('p, 'e) ray_process \<times> 'e event list) option" where
  "exec A [] s = Some (s, [])"
| "exec A (a # as) s =
     (case step A a s of
        None \<Rightarrow> None
      | Some (s', evs) \<Rightarrow>
          (case exec A as s' of
             None \<Rightarrow> None
           | Some (s'', t) \<Rightarrow> Some (s'', evs @ t)))"

subsection \<open>The runner\<close>

text \<open>
  A Python dictionary keeps its keys in the order of their first insertion: it is an
  association list, a key at most once. Assigning to a key that is there replaces its
  value in place; reading a key that is not there raises \<^verbatim>\<open>KeyError\<close>.
\<close>

fun dict_set :: "'k \<Rightarrow> 'v \<Rightarrow> ('k \<times> 'v) list \<Rightarrow> ('k \<times> 'v) list" where
  "dict_set k v [] = [(k, v)]"
| "dict_set k v ((k', v') # d) =
     (if k = k' then (k, v) # d else (k', v') # dict_set k v d)"

record system =
  process_classes :: "(name \<times> process_class) list"
  upstream_names :: "name \<Rightarrow> name list option"
  downstream_names :: "name \<Rightarrow> name list option"

record runner =
  runner_system :: system
  runner_infrastructure_class :: "infrastructure_class option"
  pipeline_ids :: "int list"
  runner_setup_tables :: bool
  db_uri :: "string option"
  ray_processes :: "((name \<times> int) \<times> actor_id) list"

text \<open>
  What \<^verbatim>\<open>start\<close> asks of the remote-actor substrate, in the order it asks:
  \<^verbatim>\<open>RayProcess.remote(...)\<close> creates an actor, \<^verbatim>\<open>init.remote(...)\<close> and
  \<^verbatim>\<open>run.remote()\<close> send a call to an actor and return a reference to its result at once,
  and \<^verbatim>\<open>ray.get(refs)\<close> waits until every call of \<open>refs\<close> has completed and raises when one
  of them has raised.
\<close>

datatype ref = InitRef actor_id | RunRef actor_id

datatype effect =
    SpawnEff actor_id name process_class int string
  | InitEff actor_id "(name \<times> notification_log) list" "(name \<times> actor_id) list"
  | RunEff actor_id
  | GetEff "ref list"

text \<open>The first loop of \<^verbatim>\<open>start\<close>, over the process classes.\<close>

fun check_classes :: "infrastructure_class option \<Rightarrow> process_class list \<Rightarrow> error option" where
  "check_classes i [] = None"
| "check_classes i (c # cs) =
     (if \<not> concrete_instance c then
        (case i of
           None \<Rightarrow> Some (ProgrammingError ''infrastructure_class is not set'')
         | Some ic \<Rightarrow>
             if \<not> concrete_subclass ic
             then Some (ProgrammingError ''infrastructure_class is not a subclass of ApplicationWithConcreteInfrastructure'')
             else check_classes i cs)
      else check_classes i cs)"

text \<open>
  \<^verbatim>\<open>self.db_uri or os.environ.get("DB_URI")\<close>: the runner's own value unless it is \<^verbatim>\<open>None\<close>
  or empty. The assertion wants a value that is not empty.
\<close>

definition get_db_uri :: "runner \<Rightarrow> string option \<Rightarrow> string option" where
  "get_db_uri r environ =
     (case db_uri r of
        None \<Rightarrow> environ
      | Some u \<Rightarrow> if u = [] then environ else Some u)"

text \<open>
  The loops that create the actors: every pipeline id, and for each the process classes in
  their order. The accumulator is the dictionary \<^verbatim>\<open>ray_processes\<close>, the identity of
  the next actor and the effects so far.
\<close>

fun spawn_processes ::
  "string \<Rightarrow> int \<Rightarrow> (name \<times> process_class) list \<Rightarrow>
   ((name \<times> int) \<times> actor_id) list \<times> actor_id \<times> effect list \<Rightarrow>
   ((name \<times> int) \<times> actor_id) list \<times> actor_id \<times> effect list" where
  "spawn_processes uri pid [] acc = acc"
| "spawn_processes uri pid ((process_name, c) # cs) (d, next, tr) =
     spawn_processes uri pid cs
       (dict_set (process_name, pid) next d, Suc next,
        tr @ [SpawnEff next process_name c pid uri])"

fun spawn_pipelines ::
  "string \<Rightarrow> int list \<Rightarrow> (name \<times> process_class) list \<Rightarrow>
   ((name \<times> int) \<times> actor_id) list \<times> actor_id \<times> effect list \<Rightarrow>
   ((name \<times> int) \<times> actor_id) list \<times> actor_id \<times> effect list" where
  "spawn_pipelines uri [] cs acc = acc"
| "spawn_pipelines uri (pid # pids) cs acc =
     spawn_pipelines uri pids cs (spawn_processes uri pid cs acc)"

text \<open>
  The dictionary of the downstream actors and the dictionary of the upstream logs of one
  actor; a name without an actor in the pipeline raises \<^verbatim>\<open>KeyError\<close>.
\<close>

fun downstream_dict ::
  "((name \<times> int) \<times> actor_id) list \<Rightarrow> int \<Rightarrow> name list \<Rightarrow> (name \<times> actor_id) list \<Rightarrow>
   error + (name \<times> actor_id) list" where
  "downstream_dict d pid [] acc = Inr acc"
| "downstream_dict d pid (n # ns) acc =
     (case map_of d (n, pid) of
        None \<Rightarrow> Inl KeyError
      | Some h \<Rightarrow> downstream_dict d pid ns (dict_set n h acc))"

fun upstream_dict ::
  "((name \<times> int) \<times> actor_id) list \<Rightarrow> int \<Rightarrow> name list \<Rightarrow> (name \<times> notification_log) list \<Rightarrow>
   error + (name \<times> notification_log) list" where
  "upstream_dict d pid [] acc = Inr acc"
| "upstream_dict d pid (n # ns) acc =
     (case map_of d (n, pid) of
        None \<Rightarrow> Inl KeyError
      | Some h \<Rightarrow> upstream_dict d pid ns (dict_set n (RayNotificationLog h 5) acc))"

text \<open>
  The loop that sends \<^verbatim>\<open>init\<close> to every actor of \<^verbatim>\<open>ray_processes\<close>; \<open>items\<close> is what is
  left of \<^verbatim>\<open>ray_processes.items()\<close>. It returns the effects up to the exception, if any.
\<close>

fun init_all ::
  "system \<Rightarrow> ((name \<times> int) \<times> actor_id) list \<Rightarrow> ((name \<times> int) \<times> actor_id) list \<Rightarrow>
   error option \<times> effect list" where
  "init_all sys d [] = (None, [])"
| "init_all sys d (((process_name, pid), h) # items) =
     (case upstream_names sys process_name of
        None \<Rightarrow> (Some KeyError, [])
      | Some ups \<Rightarrow>
          (case downstream_names sys process_name of
             None \<Rightarrow> (Some KeyError, [])
           | Some downs \<Rightarrow>
               (case downstream_dict d pid downs [] of
                  Inl e \<Rightarrow> (Some e, [])
                | Inr downstream \<Rightarrow>
                    (case upstream_dict d pid ups [] of
                       Inl e \<Rightarrow> (Some e, [])
                     | Inr logs \<Rightarrow>
                         (case init_all sys d items of
                            (res, tr) \<Rightarrow> (res, InitEff h logs downstream # tr))))))"

text \<open>\<^verbatim>\<open>ray.get(refs)\<close> raises the exception of the first call of \<open>refs\<close> that has raised.\<close>

fun ray_get :: "(ref \<Rightarrow> error option) \<Rightarrow> ref list \<Rightarrow> error option" where
  "ray_get failure [] = None"
| "ray_get failure (x # xs) =
     (case failure x of
        Some e \<Rightarrow> Some e
      | None \<Rightarrow> ray_get failure xs)"

text \<open>
  \<^verbatim>\<open>RayRunner.start\<close>. \<open>environ\<close> is \<^verbatim>\<open>os.environ.get("DB_URI")\<close>, \<open>next\<close> the identity of the
  next actor the substrate creates, and \<open>failure\<close> tells of a remote call whether it raises.
  The result is the exception, if any, the runner and the effects in their order.
\<close>

definition start ::
  "runner \<Rightarrow> string option \<Rightarrow> actor_id \<Rightarrow> (ref \<Rightarrow> error option) \<Rightarrow>
   error option \<times> runner \<times> effect list" where
  "start r environ next failure =
     (case check_classes (runner_infrastructure_class r)
             (map snd (process_classes (runner_system r))) of
        Some e \<Rightarrow> (Some e, r, [])
      | None \<Rightarrow>
          (case get_db_uri r environ of
             None \<Rightarrow> (Some (AssertionError ''DB_URI not set''), r, [])
           | Some uri \<Rightarrow>
               if uri = [] then (Some (AssertionError ''DB_URI not set''), r, [])
               else
                 (case spawn_pipelines uri (pipeline_ids r) (process_classes (runner_system r))
                         (ray_processes r, next, []) of
                    (d, next', spawned) \<Rightarrow>
                      (case init_all (runner_system r) d d of
                         (Some e, inits) \<Rightarrow> (Some e, r\<lparr>ray_processes := d\<rparr>, spawned @ inits)
                       | (None, inits) \<Rightarrow>
                           (case ray_get failure (map (\<lambda>(key, h). InitRef h) d) of
                              Some e \<Rightarrow>
                                (Some e, r\<lparr>ray_processes := d\<rparr>,
                                 spawned @ inits @ [GetEff (map (\<lambda>(key, h). InitRef h) d)])
                            | None \<Rightarrow>
                                (ray_get failure (map (\<lambda>(key, h). RunRef h) d),
                                 r\<lparr>ray_processes := d\<rparr>,
                                 spawned @ inits @ [GetEff (map (\<lambda>(key, h). InitRef h) d)] @
                                 map (\<lambda>(key, h). RunEff h) d @
                                 [GetEff (map (\<lambda>(key, h). RunRef h) d)]))))))"

subsection \<open>Reading the effects of the runner\<close>

text \<open>
  Of the effects of \<^verbatim>\<open>start\<close>: the actors it created, each with its key in
  \<^verbatim>\<open>ray_processes\<close>, the actors it sent \<^verbatim>\<open>init\<close> to and the actors it sent \<^verbatim>\<open>run\<close> to, in
  their order. \<open>placed d tr\<close>: every actor created in \<open>tr\<close> is the value of its key in the
  dictionary \<open>d\<close>.
\<close>

fun spawned_of :: "effect list \<Rightarrow> ((name \<times> int) \<times> actor_id) list" where
  "spawned_of [] = []"
| "spawned_of (SpawnEff h n c pid uri # t) = ((n, pid), h) # spawned_of t"
| "spawned_of (x # t) = spawned_of t"

fun inits_of :: "effect list \<Rightarrow> actor_id list" where
  "inits_of [] = []"
| "inits_of (InitEff h logs downstream # t) = h # inits_of t"
| "inits_of (x # t) = inits_of t"

fun runs_of :: "effect list \<Rightarrow> actor_id list" where
  "runs_of [] = []"
| "runs_of (RunEff h # t) = h # runs_of t"
| "runs_of (x # t) = runs_of t"

definition placed :: "((name \<times> int) \<times> actor_id) list \<Rightarrow> effect list \<Rightarrow> bool" where
  "placed d tr = (\<forall>(k, h) \<in> set (spawned_of tr). map_of d k = Some h)"

subsection \<open>Reading a trace\<close>

text \<open>
  The trace of an execution is the list of what its steps let the outside see. For an
  upstream \<open>u\<close>, \<open>read_ids u t\<close> is the ids of the notifications that the reads of the
  reader of \<open>u\<close> returned, in the order of the reads, and \<open>handed_ids u t\<close> the ids of the
  notifications of \<open>u\<close> handed to \<^verbatim>\<open>process_upstream_event\<close>, in the order of the calls.
  \<open>read_names t\<close> is the upstream names whose readers were read. A trace is fault-free when
  no exception was raised in it.
\<close>

definition read_ids :: "name \<Rightarrow> 'e event list \<Rightarrow> int list" where
  "read_ids u t =
     concat (map (\<lambda>ev. case ev of ReadEv u' ns \<Rightarrow> if u' = u then map nid ns else []
                          | _ \<Rightarrow> []) t)"

definition handed_ids :: "name \<Rightarrow> 'e event list \<Rightarrow> int list" where
  "handed_ids u t =
     concat (map (\<lambda>ev. case ev of HandedEv (e, i, u') \<Rightarrow> if u' = u then [i] else []
                          | _ \<Rightarrow> []) t)"

definition fault_free :: "'e event list \<Rightarrow> bool" where
  "fault_free t = list_all (\<lambda>ev. case ev of FaultEv e \<Rightarrow> False | _ \<Rightarrow> True) t"

fun read_names :: "'e event list \<Rightarrow> name list" where
  "read_names [] = []"
| "read_names (ReadEv u ns # t) = u # read_names t"
| "read_names (ev # t) = read_names t"

text \<open>
  The notifications of \<open>u\<close> that have been read and not yet handed over are in three places:
  the item the processor has taken, the event queue, and the local variables of the
  puller (the item it is about to put and the notifications it has still to check).
\<close>

definition queue_ids :: "name \<Rightarrow> 'e item list \<Rightarrow> int list" where
  "queue_ids u q = concat (map (\<lambda>(e, i, u'). if u' = u then [i] else []) q)"






text \<open>
  \<open>checked_first C P t\<close>: in the trace \<open>t\<close> every item handed to
  \<^verbatim>\<open>process_upstream_event\<close> was put on the event queue before, and every item put on the
  event queue has the id and the upstream of a notification whose causal-dependency check
  returned before, without an exception. \<open>C\<close> is the checks that returned and \<open>P\<close> the
  items put before \<open>t\<close>.
\<close>

fun checked_first :: "(int \<times> name) set \<Rightarrow> 'e item set \<Rightarrow> 'e event list \<Rightarrow> bool" where
  "checked_first C P [] = True"
| "checked_first C P (CheckEv u n None # t) = checked_first (insert (nid n, u) C) P t"
| "checked_first C P (PutEv x # t) = (snd x \<in> C \<and> checked_first C (insert x P) t)"
| "checked_first C P (HandedEv x # t) = (x \<in> P \<and> checked_first C P t)"
| "checked_first C P (ev # t) = checked_first C P t"

fun checks :: "'e event list \<Rightarrow> (int \<times> name) set" where
  "checks [] = {}"
| "checks (CheckEv u n None # t) = insert (nid n, u) (checks t)"
| "checks (ev # t) = checks t"

fun puts :: "'e event list \<Rightarrow> 'e item set" where
  "puts [] = {}"
| "puts (PutEv x # t) = insert x (puts t)"
| "puts (ev # t) = puts t"

definition guarded :: "('p, 'e) ray_process \<Rightarrow> (int \<times> name) set \<Rightarrow> 'e item set \<Rightarrow> bool" where
  "guarded s C P =
     (set (upstream_event_queue s) \<subseteq> P \<and>
      (\<forall>x. process_events_thread s = Some (ProcessorGot x) \<longrightarrow> x \<in> P) \<and>
      (\<forall>names u ns x. pull_notifications_thread s = Some (PullerPutting names u ns x) \<longrightarrow>
         snd x \<in> C))"




subsection \<open>A running actor\<close>







text \<open>
  \<open>never_waiting A as s\<close>: in the execution of \<open>as\<close> from \<open>s\<close> the puller is not at the
  head of its loop after any step. \<open>runs A s names s'\<close>: some execution without an
  exception leads from \<open>s\<close> to \<open>s'\<close>, the readers read in it are those of \<open>names\<close>, in
  that order, and a puller that is within a round at the start stays within it.
\<close>

fun never_waiting ::
  "('p, 'e) process_application \<Rightarrow> action list \<Rightarrow> ('p, 'e) ray_process \<Rightarrow> bool" where
  "never_waiting A [] s = True"
| "never_waiting A (a # as) s =
     (case step A a s of
        None \<Rightarrow> True
      | Some (s', evs) \<Rightarrow>
          pull_notifications_thread s' \<noteq> Some PullerWaiting \<and> never_waiting A as s')"

definition runs ::
  "('p, 'e) process_application \<Rightarrow> ('p, 'e) ray_process \<Rightarrow> name list \<Rightarrow>
   ('p, 'e) ray_process \<Rightarrow> bool" where
  "runs A s names s' =
     (\<exists>sched t. exec A sched s = Some (s', t) \<and> fault_free t \<and> read_names t = names \<and>
        (pull_notifications_thread s \<noteq> Some PullerWaiting \<longrightarrow> never_waiting A sched s))"

subsection \<open>A small system, for evaluation\<close>

text \<open>
  One process that follows one upstream, \<open>''u''\<close>, whose log holds the notifications 1, 2
  and 3 without causal dependencies. The state of the process application is the position
  of its reader and the position it has tracked. Applying an event tracks its
  notification and returns the event as a new event; the event \<open>''shipped''\<close> has no new
  event and the event \<open>''bad''\<close> raises. The predicate of the subscription lets through
  the batches of one prompt.
\<close>

definition example_class :: process_class where
  "example_class = \<lparr>class_id = ''Orders'', concrete_instance = False\<rparr>"

definition example_infrastructure :: infrastructure_class where
  "example_infrastructure = \<lparr>infrastructure_id = ''SQLAlchemyApplication'', concrete_subclass = True\<rparr>"

record example_process =
  position :: nat
  tracked :: nat

definition example_log :: "notification list" where
  "example_log =
     [\<lparr>nid = 1, causal_dependencies = None, payload = ''created''\<rparr>,
      \<lparr>nid = 2, causal_dependencies = None, payload = ''paid''\<rparr>,
      \<lparr>nid = 3, causal_dependencies = None, payload = ''shipped''\<rparr>]"

definition example_application :: "(example_process, string) process_application" where
  "example_application =
     \<lparr> construct = (\<lambda>c i pid t. Inr \<lparr>position = 0, tracked = 0\<rparr>),
       follow = (\<lambda>p u l. Inr p),
       app_name = (\<lambda>p. ''orders''),
       app_pipeline_id = (\<lambda>p. 0),
       truth = (\<lambda>p. True),
       readers = (\<lambda>p. [''u'']),
       reader_read = (\<lambda>p u. (Inr (drop (position p) example_log),
                              p\<lparr>position := length example_log\<rparr>)),
       check_causal_dependencies =
         (\<lambda>p u d. case d of None \<Rightarrow> None | Some x \<Rightarrow> Some (OtherError ''CausalDependencyFailed'')),
       get_event_from_notification = (\<lambda>p n. Inr (payload n)),
       process_upstream_event =
         (\<lambda>p ev i u. if ev = ''bad'' then (Inl RecordConflictError, p)
                      else if ev = ''shipped'' then (Inr [], p\<lparr>tracked := nat i\<rparr>)
                      else (Inr [ev], p\<lparr>tracked := nat i\<rparr>)),
       set_reader_position_from_tracking_records = (\<lambda>p u. Inr (p\<lparr>position := tracked p\<rparr>)),
       is_prompt = (\<lambda>events. length events = 1) \<rparr>"

text \<open>The actor of that process after \<^verbatim>\<open>init\<close> and \<^verbatim>\<open>run\<close>.\<close>

definition example_actor :: "(example_process, string) ray_process" where
  "example_actor =
     \<lparr> application_process_class = example_class,
       infrastructure = Some example_infrastructure,
       pipeline_id = 0, setup_tables = False,
       process = Some \<lparr>position = 0, tracked = 0\<rparr>,
       upstream_logs = Some [(''u'', RayNotificationLog 0 5)],
       downstream_processes = Some [],
       push_prompt_queue = [], upstream_event_queue = [], prompted_names = {},
       has_been_prompted = False, has_been_stopped = False,
       event_reading_lock = False, subscribed = True,
       pull_notifications_thread = Some PullerWaiting,
       process_events_thread = Some ProcessorLoop,
       push_prompts_thread = Some PusherLoop \<rparr>"

text \<open>
  The same actor with one downstream actor, while its pusher waits for the responses to a
  prompt it has sent and 99 more prompts are in the push-prompt queue.
\<close>

definition busy_actor :: "(example_process, string) ray_process" where
  "busy_actor =
     example_actor
       \<lparr> downstream_processes := Some [(''shipping'', 1)],
         push_prompt_queue := replicate 99 (Some (RayPrompt ''orders'' 0)),
         push_prompts_thread := Some (PusherAwaiting [1]) \<rparr>"

text \<open>The busy actor when one more prompt has filled its push-prompt queue.\<close>

definition busy_full_actor :: "(example_process, string) ray_process" where
  "busy_full_actor =
     busy_actor\<lparr>push_prompt_queue := replicate 100 (Some (RayPrompt ''orders'' 0))\<rparr>"

text \<open>The example application with a predicate that lets every batch through.\<close>

definition lenient_application :: "(example_process, string) process_application" where
  "lenient_application = example_application\<lparr>is_prompt := (\<lambda>events. True)\<rparr>"

text \<open>
  Methods of the example application, for \<^verbatim>\<open>call\<close>: \<open>''echo''\<close> returns its argument;
  \<open>''flaky''\<close> raises \<^verbatim>\<open>OperationalError\<close> and moves the position while the position is
  below 2, and returns its argument from then on; \<open>''down''\<close> always raises
  \<^verbatim>\<open>OperationalError\<close>.
\<close>

definition example_methods ::
  "name \<Rightarrow> (nat \<Rightarrow> example_process \<Rightarrow> (error + nat) \<times> example_process) option" where
  "example_methods n =
     (if n = ''echo'' then Some (\<lambda>a p. (Inr a, p))
      else if n = ''flaky'' then
        Some (\<lambda>a p. if position p < 2 then (Inl OperationalError, p\<lparr>position := Suc (position p)\<rparr>)
                     else (Inr a, p))
      else if n = ''down'' then Some (\<lambda>a p. (Inl OperationalError, p))
      else None)"

text \<open>The same actor after \<^verbatim>\<open>init\<close>, before \<^verbatim>\<open>run\<close> has started its threads.\<close>

definition example_inited :: "(example_process, string) ray_process" where
  "example_inited =
     example_actor
       \<lparr> pull_notifications_thread := None, process_events_thread := None,
         push_prompts_thread := None \<rparr>"

text \<open>
  An execution of the example: the puller times out, reads the three notifications and
  puts the first on the event queue; the processor applies it while the puller goes on;
  at the end the three events have been applied and the puller is back at the head of its
  loop.
\<close>

definition example_schedule :: "action list" where
  "example_schedule =
     [Pull [], Pull [], Pull [], Pull [], Pull [], Process, Process, Process, Process,
      Pull [], Pull [], Pull [], Pull [], Process, Process, Process, Process,
      Process, Process, Process, Pull [], Pull []]"

definition example_trace :: "string event list" where
  "example_trace =
     [ReadEv ''u'' example_log,
      CheckEv ''u'' \<lparr>nid = 1, causal_dependencies = None, payload = ''created''\<rparr> None,
      PutEv (''created'', 1, ''u''),
      HandedEv (''created'', 1, ''u''),
      PromptPutEv (RayPrompt ''orders'' 0),
      CheckEv ''u'' \<lparr>nid = 2, causal_dependencies = None, payload = ''paid''\<rparr> None,
      PutEv (''paid'', 2, ''u''),
      CheckEv ''u'' \<lparr>nid = 3, causal_dependencies = None, payload = ''shipped''\<rparr> None,
      PutEv (''shipped'', 3, ''u''),
      HandedEv (''paid'', 2, ''u''),
      PromptPutEv (RayPrompt ''orders'' 0),
      HandedEv (''shipped'', 3, ''u'')]"

definition example_final :: "(example_process, string) ray_process" where
  "example_final =
     example_actor
       \<lparr> process := Some \<lparr>position = 3, tracked = 3\<rparr>,
         push_prompt_queue := [Some (RayPrompt ''orders'' 0), Some (RayPrompt ''orders'' 0)] \<rparr>"

text \<open>The example actor when its processor has taken the second event.\<close>

definition got_actor :: "(example_process, string) ray_process" where
  "got_actor =
     example_actor\<lparr>process_events_thread := Some (ProcessorGot (''paid'', 2, ''u''))\<rparr>"













text \<open>
  An upstream whose log holds 102 notifications, each carrying an event that the process
  application refuses with a conflict. In the execution \<open>flood_schedule\<close> of the example
  actor the puller reads them and puts the first on the event queue, the processor takes
  it, the puller puts the next hundred and is about to put the last, and the processor
  applies the one it has taken. The actor is then as in \<open>stuck_actor\<close>.
\<close>

definition flood_notification :: "nat \<Rightarrow> notification" where
  "flood_notification i = \<lparr>nid = int i, causal_dependencies = None, payload = ''bad''\<rparr>"

definition flood_ids :: "nat list" where
  "flood_ids = [2..<102]"

definition flood_log :: "notification list" where
  "flood_log = flood_notification 1 # map flood_notification flood_ids @ [flood_notification 102]"

definition flood_application :: "(example_process, string) process_application" where
  "flood_application =
     example_application
       \<lparr>reader_read := (\<lambda>p u. (Inr (drop (position p) flood_log),
                                p\<lparr>position := length flood_log\<rparr>))\<rparr>"

definition flood_schedule :: "action list" where
  "flood_schedule =
     [Pull [], Pull [], Pull [], Pull [], Pull [], Process, Process] @
     concat (replicate 100 [Pull [], Pull []]) @ [Pull [], Process]"

definition flood_trace :: "string event list" where
  "flood_trace =
     [ReadEv ''u'' flood_log, CheckEv ''u'' (flood_notification 1) None,
      PutEv (''bad'', 1, ''u'')] @
     concat (map (\<lambda>i. [CheckEv ''u'' (flood_notification i) None, PutEv (''bad'', int i, ''u'')])
               flood_ids) @
     [CheckEv ''u'' (flood_notification 102) None, HandedEv (''bad'', 1, ''u''),
      FaultEv RecordConflictError]"

definition stuck_actor :: "(example_process, string) ray_process" where
  "stuck_actor =
     example_actor
       \<lparr> process := Some \<lparr>position = 102, tracked = 0\<rparr>,
         upstream_event_queue := map (\<lambda>i. (''bad'', int i, ''u'')) flood_ids,
         event_reading_lock := True,
         pull_notifications_thread := Some (PullerPutting [] ''u'' [] (''bad'', 102, ''u'')),
         process_events_thread := Some (ProcessorFailed RecordConflictError) \<rparr>"

text \<open>
  A system of two processes in one pipeline: \<open>''payments''\<close> follows \<open>''orders''\<close>. The
  runner has an infrastructure class and the address of a database; no remote call
  raises. The unconfigured runner is the same without an infrastructure class.
\<close>

definition example_system :: system where
  "example_system =
     \<lparr> process_classes = [(''orders'', example_class), (''payments'', example_class)],
       upstream_names = (\<lambda>n. if n = ''orders'' then Some []
                              else if n = ''payments'' then Some [''orders''] else None),
       downstream_names = (\<lambda>n. if n = ''orders'' then Some [''payments'']
                                else if n = ''payments'' then Some [] else None) \<rparr>"

definition no_failure :: "ref \<Rightarrow> error option" where
  "no_failure x = None"

definition example_runner :: runner where
  "example_runner =
     \<lparr> runner_system = example_system,
       runner_infrastructure_class = Some example_infrastructure,
       pipeline_ids = [0], runner_setup_tables = False,
       db_uri = Some ''postgresql://db/es'', ray_processes = [] \<rparr>"

definition unconfigured_runner :: runner where
  "unconfigured_runner = example_runner\<lparr>runner_infrastructure_class := None\<rparr>"

definition example_started :: runner where
  "example_started =
     example_runner\<lparr>ray_processes := [((''orders'', 0), 0), ((''payments'', 0), 1)]\<rparr>"

definition example_effects :: "effect list" where
  "example_effects =
     [SpawnEff 0 ''orders'' example_class 0 ''postgresql://db/es'',
      SpawnEff 1 ''payments'' example_class 0 ''postgresql://db/es'',
      InitEff 0 [] [(''payments'', 1)],
      InitEff 1 [(''orders'', RayNotificationLog 0 5)] [],
      GetEff [InitRef 0, InitRef 1],
      RunEff 0, RunEff 1,
      GetEff [RunRef 0, RunRef 1]]"


section \<open>Properties\<close>

subsection \<open>Helper lemmas\<close>

lemma retry_count:
  "attempts < snd (retry exc m f attempts s) \<and>
   snd (retry exc m f attempts s) \<le> max m (attempts + 1)"
proof (induction exc m f attempts s rule: retry.induct)
  case (1 exc m f attempts s)
  show ?case
  proof (cases "f s")
    case (Raised e s')
    show ?thesis
    proof (cases "exc e \<and> attempts + 1 < m")
      case True
      with Raised 1 show ?thesis
        by (subst retry.simps, subst retry.simps) (auto simp: retry.simps)
    next
      case False
      with Raised show ?thesis
        by (subst retry.simps, subst retry.simps) auto
    qed
  qed (simp_all add: retry.simps)
qed

lemma retry_result_of_body: "\<exists>t. fst (retry exc m f attempts s) = f t"
proof (induction exc m f attempts s rule: retry.induct)
  case (1 exc m f attempts s)
  show ?case
  proof (cases "f s")
    case (Raised e s')
    show ?thesis
    proof (cases "exc e \<and> attempts + 1 < m")
      case True
      with Raised 1 show ?thesis
        by (subst retry.simps) simp
    next
      case False
      with Raised have "fst (retry exc m f attempts s) = f s"
        by (subst retry.simps) auto
      then show ?thesis by blast
    qed
  next
    case (Returned v s')
    then have "fst (retry exc m f attempts s) = f s"
      by (simp add: retry.simps)
    then show ?thesis by blast
  next
    case (Blocked s')
    then have "fst (retry exc m f attempts s) = f s"
      by (simp add: retry.simps)
    then show ?thesis by blast
  qed
qed

lemma retry_chain:
  "(\<forall>j<k. \<exists>e. exc e \<and> f (\<sigma> j) = Raised e (\<sigma> (Suc j))) \<Longrightarrow> attempts + k < m \<Longrightarrow>
   attempts + k + 1 = m \<or> (\<forall>e t. f (\<sigma> k) = Raised e t \<longrightarrow> \<not> exc e) \<Longrightarrow>
   retry exc m f attempts (\<sigma> 0) = (f (\<sigma> k), attempts + k + 1)"
proof (induction k arbitrary: \<sigma> attempts)
  case 0
  then show ?case
    by (subst retry.simps) (auto split: outcome.splits)
next
  case (Suc k)
  from Suc.prems(1) obtain e where e: "exc e" "f (\<sigma> 0) = Raised e (\<sigma> (Suc 0))" by blast
  let ?\<tau> = "\<lambda>j. \<sigma> (Suc j)"
  from Suc.prems(1) have 1: "\<forall>j<k. \<exists>e. exc e \<and> f (?\<tau> j) = Raised e (?\<tau> (Suc j))" by simp
  from Suc.prems(2) have 2: "(attempts + 1) + k < m" by simp
  from Suc.prems(3)
  have 3: "(attempts + 1) + k + 1 = m \<or> (\<forall>e t. f (?\<tau> k) = Raised e t \<longrightarrow> \<not> exc e)" by simp
  from Suc.IH [of ?\<tau> "attempts + 1", OF 1 2 3]
  have "retry exc m f (attempts + 1) (\<sigma> (Suc 0)) = (f (\<sigma> (Suc k)), attempts + 1 + k + 1)" by simp
  moreover from Suc.prems(2) have "attempts + 1 < m" by simp
  ultimately show ?case using e
    by (subst retry.simps) simp
qed

subsection \<open>The methods of the actor\<close>

text \<open>
  C9. \<^verbatim>\<open>call\<close> passes the call through to the process application and retries it a bounded
  number of times: its body is called once at least and ten times at most; what it
  returns, raises or waits for is what one of these calls of the body does; a value
  returned or an exception other than \<^verbatim>\<open>OperationalError\<close> raised by the first call ends
  it after that one call. Each call that raises \<^verbatim>\<open>OperationalError\<close> is followed by
  another call, on the state the failed call has left: when the calls on the states
  \<open>\<sigma> 0\<close>, ..., \<open>\<sigma> (k - 1)\<close> raise it, each leaving the next state, the call on \<open>\<sigma> k\<close> is
  made, and it is the last when it does not raise \<^verbatim>\<open>OperationalError\<close>, and also when it
  is the tenth: then its exception goes to the caller. Before \<^verbatim>\<open>init\<close> has constructed the
  process the first call raises (the attribute is missing) and there is no second call.
\<close>

theorem call_bounded_retry:
  "1 \<le> snd (call A M m a s) \<and> snd (call A M m a s) \<le> 10 \<and>
   (\<exists>t. fst (call A M m a s) = call_body A M m a t) \<and>
   (process s = None \<longrightarrow> call A M m a s = (Raised (AttributeError ''process'') s, 1)) \<and>
   (\<forall>v s'. call_body A M m a s = Returned v s' \<longrightarrow> call A M m a s = (Returned v s', 1)) \<and>
   (\<forall>e s'. call_body A M m a s = Raised e s' \<and> e \<noteq> OperationalError \<longrightarrow>
            call A M m a s = (Raised e s', 1)) \<and>
   (\<forall>\<sigma> k. k < 10 \<and> (\<forall>j<k. call_body A M m a (\<sigma> j) = Raised OperationalError (\<sigma> (Suc j))) \<and>
          (k = 9 \<or> (\<forall>t. call_body A M m a (\<sigma> k) \<noteq> Raised OperationalError t)) \<longrightarrow>
          call A M m a (\<sigma> 0) = (call_body A M m a (\<sigma> k), Suc k))"
proof -
  let ?f = "call_body A M m a"
  have bound: "1 \<le> snd (call A M m a s) \<and> snd (call A M m a s) \<le> 10"
    using retry_count [of 0 "\<lambda>e. e = OperationalError" 10 ?f s]
    by (simp add: call_def)
  have body: "\<exists>t. fst (call A M m a s) = ?f t"
    using retry_result_of_body [of "\<lambda>e. e = OperationalError" 10 ?f 0 s]
    by (simp add: call_def)
  have none: "process s = None \<longrightarrow> call A M m a s = (Raised (AttributeError ''process'') s, 1)"
    by (simp add: call_def call_body_def retry.simps)
  have ret: "\<forall>v s'. ?f s = Returned v s' \<longrightarrow> call A M m a s = (Returned v s', 1)"
    by (simp add: call_def retry.simps)
  have other: "\<forall>e s'. ?f s = Raised e s' \<and> e \<noteq> OperationalError \<longrightarrow>
            call A M m a s = (Raised e s', 1)"
    by (simp add: call_def retry.simps)
  have chain: "call A M m a (\<sigma> 0) = (?f (\<sigma> k), Suc k)"
    if "k < 10" and "\<forall>j<k. ?f (\<sigma> j) = Raised OperationalError (\<sigma> (Suc j))"
      and "k = 9 \<or> (\<forall>t. ?f (\<sigma> k) \<noteq> Raised OperationalError t)"
    for \<sigma> k
    using retry_chain [of k "\<lambda>e. e = OperationalError" ?f \<sigma> 0 10] that
    by (auto simp: call_def)
  from bound body none ret other chain show ?thesis by blast
qed

theorem call_bounded_retry_witness:
  "call example_application example_methods ''echo'' 7 example_actor =
     (Returned 7 example_actor, 1) \<and>
   call example_application example_methods ''echo'' 7
       (RayProcess_init example_class None 0 False) =
     (Raised (AttributeError ''process'') (RayProcess_init example_class None 0 False), 1) \<and>
   call example_application example_methods ''flaky'' 7 example_actor =
     (Returned 7 (example_actor\<lparr>process := Some \<lparr>position = 2, tracked = 0\<rparr>\<rparr>), 3) \<and>
   call example_application example_methods ''down'' 7 example_actor =
     (Raised OperationalError example_actor, 10)"
proof -
  have b: "call_body example_application example_methods ''echo'' 7 example_actor =
           Returned 7 example_actor"
    by (simp add: call_body_def example_application_def example_methods_def example_actor_def)
  have n: "process (RayProcess_init example_class None 0 False ::
             (example_process, string) ray_process) = None"
    by (simp add: RayProcess_init_def)
  from b call_bounded_retry
    [of example_application example_methods "''echo''" 7 example_actor]
  have 1: "call example_application example_methods ''echo'' 7 example_actor =
           (Returned 7 example_actor, 1)"
    by blast
  from n call_bounded_retry
    [of example_application example_methods "''echo''" 7
        "RayProcess_init example_class None 0 False"]
  have 2: "call example_application example_methods ''echo'' 7
             (RayProcess_init example_class None 0 False) =
           (Raised (AttributeError ''process'') (RayProcess_init example_class None 0 False), 1)"
    by blast
  let ?\<sigma> = "\<lambda>j. example_actor\<lparr>process := Some \<lparr>position = j, tracked = 0\<rparr>\<rparr>"
  have f: "\<forall>j<2. call_body example_application example_methods ''flaky'' 7 (?\<sigma> j) =
                  Raised OperationalError (?\<sigma> (Suc j))"
    by (simp add: call_body_def example_application_def example_methods_def)
  have g: "call_body example_application example_methods ''flaky'' 7 (?\<sigma> 2) =
           Returned 7 (?\<sigma> 2)"
    by (simp add: call_body_def example_application_def example_methods_def)
  then have g': "\<forall>t. call_body example_application example_methods ''flaky'' 7 (?\<sigma> 2) \<noteq>
                     Raised OperationalError t"
    by simp
  from call_bounded_retry
    [of example_application example_methods "''flaky''" 7 example_actor]
  have "\<forall>\<sigma> k. k < 10 \<and>
          (\<forall>j<k. call_body example_application example_methods ''flaky'' 7 (\<sigma> j) =
                   Raised OperationalError (\<sigma> (Suc j))) \<and>
          (k = 9 \<or> (\<forall>t. call_body example_application example_methods ''flaky'' 7 (\<sigma> k) \<noteq>
                          Raised OperationalError t)) \<longrightarrow>
          call example_application example_methods ''flaky'' 7 (\<sigma> 0) =
            (call_body example_application example_methods ''flaky'' 7 (\<sigma> k), Suc k)"
    by (elim conjE)
  from this [rule_format, of 2 ?\<sigma>] f g'
  have "call example_application example_methods ''flaky'' 7 (?\<sigma> 0) =
        (call_body example_application example_methods ''flaky'' 7 (?\<sigma> 2), Suc 2)"
    by simp
  with g have 3: "call example_application example_methods ''flaky'' 7 example_actor =
                  (Returned 7 (?\<sigma> 2), 3)"
    by (simp add: example_actor_def)
  let ?\<tau> = "\<lambda>j :: nat. example_actor"
  have d: "call_body example_application example_methods ''down'' 7 example_actor =
           Raised OperationalError example_actor"
    by (simp add: call_body_def example_application_def example_methods_def example_actor_def)
  then have d': "\<forall>j<9. call_body example_application example_methods ''down'' 7 (?\<tau> j) =
                        Raised OperationalError (?\<tau> (Suc j))"
    by simp
  from call_bounded_retry
    [of example_application example_methods "''down''" 7 example_actor]
  have "\<forall>\<sigma> k. k < 10 \<and>
          (\<forall>j<k. call_body example_application example_methods ''down'' 7 (\<sigma> j) =
                   Raised OperationalError (\<sigma> (Suc j))) \<and>
          (k = 9 \<or> (\<forall>t. call_body example_application example_methods ''down'' 7 (\<sigma> k) \<noteq>
                          Raised OperationalError t)) \<longrightarrow>
          call example_application example_methods ''down'' 7 (\<sigma> 0) =
            (call_body example_application example_methods ''down'' 7 (\<sigma> k), Suc k)"
    by (elim conjE)
  from this [rule_format, of 9 ?\<tau>] d'
  have "call example_application example_methods ''down'' 7 (?\<tau> 0) =
        (call_body example_application example_methods ''down'' 7 (?\<tau> 9), Suc 9)"
    by simp
  with d have 4: "call example_application example_methods ''down'' 7 example_actor =
                  (Raised OperationalError example_actor, 10)"
    by simp
  from 1 2 3 4 show ?thesis by simp
qed

text \<open>
  C8, as the claim states it, fails: \<^verbatim>\<open>stop\<close> is not idempotent. On the busy actor, whose
  push-prompt queue holds 99 prompts, a first \<^verbatim>\<open>stop\<close> returns and fills the queue with its
  \<^verbatim>\<open>None\<close>; a second \<^verbatim>\<open>stop\<close> waits on the full queue, from which the pusher,
  stopped, takes nothing any more.
\<close>

theorem stop_twice_differs:
  "is_Returned (stop busy_actor) \<and> is_Blocked (stop_twice busy_actor) \<and>
   stop_twice busy_actor \<noteq> stop busy_actor"
  by (simp add: stop_twice_def stop_def stop_wake_def stop_signal_def busy_actor_def
      example_actor_def queue_put_def maxsize_def unsubscribe_def Let_def)

text \<open>
  C8, amended. A call of \<^verbatim>\<open>stop\<close> that returns has set the stop signal, put one \<^verbatim>\<open>None\<close>
  on the push-prompt queue, set the prompted signal and unsubscribed the hook, and has
  changed nothing else; from then on each loop ends at its next check of the stop signal:
  the puller at the head of its loop, the processor and the pusher at the head of their
  loops and after they have taken an item. A second call that returns changes the
  push-prompt queue only, by one more \<^verbatim>\<open>None\<close>.
\<close>

theorem stop_effect:
  "stop s = Returned () s' \<Longrightarrow>
     s' = s\<lparr>has_been_stopped := True, push_prompt_queue := push_prompt_queue s @ [None],
             has_been_prompted := True, subscribed := False\<rparr> \<and>
     process_notifications A order PullerWaiting s' = Some (PullerExited, s', []) \<and>
     process_events A ProcessorLoop s' = Some (ProcessorExited, s', []) \<and>
     process_events A (ProcessorGot x) s' = Some (ProcessorExited, s', []) \<and>
     push_prompts response PusherLoop s' = Some (PusherExited, s', []) \<and>
     push_prompts response (PusherGot m) s' = Some (PusherExited, s', []) \<and>
     (\<forall>s''. stop s' = Returned () s'' \<longrightarrow>
        s'' = s'\<lparr>push_prompt_queue := push_prompt_queue s' @ [None]\<rparr>)"
  apply (cases x)
  apply (auto simp: stop_def stop_wake_def stop_signal_def queue_put_def unsubscribe_def Let_def
      split: if_splits option.splits)
  done

theorem stop_effect_witness:
  "stop example_actor =
     Returned () (example_actor\<lparr>has_been_stopped := True, push_prompt_queue := [None],
                                has_been_prompted := True, subscribed := False\<rparr>) \<and>
   process_events example_application ProcessorLoop
       (example_actor\<lparr>has_been_stopped := True, push_prompt_queue := [None],
                       has_been_prompted := True, subscribed := False\<rparr>) =
     Some (ProcessorExited,
           example_actor\<lparr>has_been_stopped := True, push_prompt_queue := [None],
                          has_been_prompted := True, subscribed := False\<rparr>, [])"
proof -
  let ?s' = "example_actor\<lparr>has_been_stopped := True, push_prompt_queue := [None],
                           has_been_prompted := True, subscribed := False\<rparr>"
  have h: "stop example_actor = Returned () ?s'"
    by (simp add: stop_def stop_wake_def stop_signal_def queue_put_def maxsize_def
        unsubscribe_def example_actor_def Let_def)
  from stop_effect [OF h, of example_application "[]" "(''x'', 0, ''u'')" None None]
  have "process_events example_application ProcessorLoop ?s' = Some (ProcessorExited, ?s', [])"
    by blast
  with h show ?thesis by simp
qed

text \<open>
  C10, as the claim states it, fails. The hook is subscribed with the predicate
  \<^verbatim>\<open>is_prompt\<close>, and a published batch of which the predicate does not hold is not given
  to the hook: with the predicate of the example, which lets through the batches of one
  prompt, a batch of three prompts published to the subscribed hook of the example actor
  puts nothing on the push-prompt queue, not its first prompt either.
\<close>

theorem published_batch_not_enqueued:
  "subscribed example_actor \<and>
   publish example_application example_actor
     [PromptToPull ''a'' 0, PromptToPull ''b'' 0, PromptToPull ''c'' 0] =
   Returned () example_actor \<and>
   push_prompt_queue example_actor = []"
  by (simp add: publish_def example_application_def example_actor_def)

text \<open>
  C10, amended. A batch \<open>p # ps\<close> published by the process application is given to the
  hook when the hook is subscribed and \<^verbatim>\<open>is_prompt\<close> holds of the batch, and then the
  hook does with it what it does with the batch \<open>[p]\<close>: when the push-prompt queue has
  room the queue grows by \<open>p\<close> alone, every prompt of \<open>ps\<close> being dropped, and when the
  queue is full the publication waits. A batch that is not given to the hook changes
  nothing.
\<close>

theorem published_batch_first_only:
  "enqueue_prompt s (p # ps) = enqueue_prompt s [p] \<and>
   publish A s (p # ps) =
     (if subscribed s \<and> is_prompt A (p # ps) then enqueue_prompt s [p] else Returned () s) \<and>
   (subscribed s \<and> is_prompt A (p # ps) \<and> length (push_prompt_queue s) < maxsize \<longrightarrow>
      publish A s (p # ps) =
        Returned () (s\<lparr>push_prompt_queue := push_prompt_queue s @ [Some p]\<rparr>)) \<and>
   (subscribed s \<and> is_prompt A (p # ps) \<and> maxsize \<le> length (push_prompt_queue s) \<longrightarrow>
      publish A s (p # ps) = Blocked s) \<and>
   (\<not> (subscribed s \<and> is_prompt A (p # ps)) \<longrightarrow> publish A s (p # ps) = Returned () s)"
  by (simp add: publish_def enqueue_prompt_def queue_put_def)

theorem published_batch_first_only_witness:
  "publish lenient_application example_actor
     [PromptToPull ''a'' 0, PromptToPull ''b'' 0, PromptToPull ''c'' 0] =
   Returned () (example_actor\<lparr>push_prompt_queue := [Some (PromptToPull ''a'' 0)]\<rparr>) \<and>
   publish example_application example_actor [PromptToPull ''a'' 0] =
   Returned () (example_actor\<lparr>push_prompt_queue := [Some (PromptToPull ''a'' 0)]\<rparr>) \<and>
   publish lenient_application (example_actor\<lparr>subscribed := False\<rparr>)
     [PromptToPull ''a'' 0, PromptToPull ''b'' 0] =
   Returned () (example_actor\<lparr>subscribed := False\<rparr>) \<and>
   publish lenient_application busy_full_actor [PromptToPull ''a'' 0, PromptToPull ''b'' 0] =
   Blocked busy_full_actor"
proof -
  let ?a = "PromptToPull ''a'' 0" and ?b = "PromptToPull ''b'' 0" and ?c = "PromptToPull ''c'' 0"
  have h1: "subscribed example_actor \<and> is_prompt lenient_application [?a, ?b, ?c] \<and>
            length (push_prompt_queue example_actor) < maxsize"
    by (simp add: example_actor_def lenient_application_def maxsize_def)
  from published_batch_first_only [of example_actor ?a "[?b, ?c]" lenient_application] h1
  have "publish lenient_application example_actor [?a, ?b, ?c] =
        Returned () (example_actor\<lparr>push_prompt_queue := push_prompt_queue example_actor @ [Some ?a]\<rparr>)"
    by blast
  then have 1: "publish lenient_application example_actor [?a, ?b, ?c] =
                Returned () (example_actor\<lparr>push_prompt_queue := [Some ?a]\<rparr>)"
    by (simp add: example_actor_def)
  have h2: "subscribed example_actor \<and> is_prompt example_application [?a] \<and>
            length (push_prompt_queue example_actor) < maxsize"
    by (simp add: example_actor_def example_application_def maxsize_def)
  from published_batch_first_only [of example_actor ?a "[]" example_application] h2
  have "publish example_application example_actor [?a] =
        Returned () (example_actor\<lparr>push_prompt_queue := push_prompt_queue example_actor @ [Some ?a]\<rparr>)"
    by blast
  then have 2: "publish example_application example_actor [?a] =
                Returned () (example_actor\<lparr>push_prompt_queue := [Some ?a]\<rparr>)"
    by (simp add: example_actor_def)
  have h3: "\<not> (subscribed (example_actor\<lparr>subscribed := False\<rparr>) \<and>
                is_prompt lenient_application [?a, ?b])"
    by simp
  from published_batch_first_only
    [of "example_actor\<lparr>subscribed := False\<rparr>" ?a "[?b]" lenient_application] h3
  have 3: "publish lenient_application (example_actor\<lparr>subscribed := False\<rparr>) [?a, ?b] =
           Returned () (example_actor\<lparr>subscribed := False\<rparr>)"
    by blast
  have h4: "subscribed busy_full_actor \<and> is_prompt lenient_application [?a, ?b] \<and>
            maxsize \<le> length (push_prompt_queue busy_full_actor)"
    by (simp add: busy_full_actor_def busy_actor_def example_actor_def lenient_application_def
        maxsize_def)
  from published_batch_first_only [of busy_full_actor ?a "[?b]" lenient_application] h4
  have 4: "publish lenient_application busy_full_actor [?a, ?b] = Blocked busy_full_actor"
    by blast
  from 1 2 3 4 show ?thesis by simp
qed

subsection \<open>Helper lemmas on executions\<close>

lemma exec_Cons_Some:
  assumes "exec A (a # as) s = Some (s', t)"
  obtains s1 evs t1 where "step A a s = Some (s1, evs)" and "exec A as s1 = Some (s', t1)"
    and "t = evs @ t1"
  using assms by (auto split: option.splits)

lemma example_init:
  "init example_application
     (RayProcess_init example_class (Some example_infrastructure) 0 False)
     [(''u'', RayNotificationLog 0 5)] [] = Returned () example_inited"
  by (simp add: init_def RayProcess_init_def subscribe_def example_application_def
      example_class_def example_inited_def example_actor_def Let_def)

lemma example_run: "run example_application example_inited = Returned () example_actor"
  by (simp add: run_def reset_readers_def example_application_def example_inited_def
      example_actor_def)

lemma example_exec:
  "exec example_application example_schedule example_actor = Some (example_final, example_trace)"
  by (simp add: example_schedule_def example_application_def example_actor_def example_log_def
      example_final_def example_trace_def queue_put_def queue_get_def maxsize_def)


text \<open>
  The busy actor is a state the example actor reaches, given one downstream actor: the
  application publishes a prompt, the pusher takes it and sends it and waits for the
  response, and the application publishes 99 more prompts meanwhile.
\<close>

lemma exec_append:
  "exec A (as @ bs) s =
     (case exec A as s of
        None \<Rightarrow> None
      | Some (s1, t1) \<Rightarrow>
          (case exec A bs s1 of
             None \<Rightarrow> None
           | Some (s2, t2) \<Rightarrow> Some (s2, t1 @ t2)))"
  by (induction as arbitrary: s) (auto split: option.splits)

lemma publications_fill:
  "length (push_prompt_queue s) + n \<le> maxsize \<Longrightarrow> subscribed s \<Longrightarrow> is_prompt A [p] \<Longrightarrow>
   exec A (replicate n (Publish [p])) s =
     Some (s\<lparr>push_prompt_queue := push_prompt_queue s @ replicate n (Some p)\<rparr>, [])"
proof (induction n arbitrary: s)
  case 0
  then show ?case by simp
next
  case (Suc n)
  let ?s1 = "s\<lparr>push_prompt_queue := push_prompt_queue s @ [Some p]\<rparr>"
  from Suc.prems have st: "step A (Publish [p]) s = Some (?s1, [])"
    by (simp add: publish_def enqueue_prompt_def queue_put_def)
  from Suc.prems have "length (push_prompt_queue ?s1) + n \<le> maxsize" and "subscribed ?s1"
    by simp_all
  from Suc.IH [OF this Suc.prems(3)]
  have "exec A (replicate n (Publish [p])) ?s1 =
        Some (?s1\<lparr>push_prompt_queue := push_prompt_queue ?s1 @ replicate n (Some p)\<rparr>, [])" .
  with st show ?case by (simp add: replicate_app_Cons_same)
qed

lemma busy_actor_reachable:
  "exec example_application
     ([Publish [RayPrompt ''orders'' 0], Push None, Push None, Push None, Push None, Push None] @
      replicate 99 (Publish [RayPrompt ''orders'' 0]))
     (example_actor\<lparr>downstream_processes := Some [(''shipping'', 1)]\<rparr>) =
   Some (busy_actor, [SentEv 1 (Some (RayPrompt ''orders'' 0))])"
proof -
  let ?s0 = "example_actor\<lparr>downstream_processes := Some [(''shipping'', 1)]\<rparr>"
  let ?s1 = "example_actor\<lparr>downstream_processes := Some [(''shipping'', 1)],
                           push_prompts_thread := Some (PusherAwaiting [1])\<rparr>"
  have 1: "exec example_application
             [Publish [RayPrompt ''orders'' 0], Push None, Push None, Push None, Push None,
              Push None] ?s0 =
           Some (?s1, [SentEv 1 (Some (RayPrompt ''orders'' 0))])"
    by (simp add: example_actor_def example_application_def publish_def enqueue_prompt_def
        queue_put_def queue_get_def maxsize_def)
  have "length (push_prompt_queue ?s1) + 99 \<le> maxsize" and "subscribed ?s1"
    and "is_prompt example_application [RayPrompt ''orders'' 0]"
    by (simp_all add: example_actor_def example_application_def maxsize_def)
  from publications_fill [OF this]
  have 2: "exec example_application (replicate 99 (Publish [RayPrompt ''orders'' 0])) ?s1 =
           Some (busy_actor, [])"
    by (simp add: busy_actor_def example_actor_def)
  from 1 2 show ?thesis by (simp only: exec_append option.case prod.case append_Nil2)
qed

subsection \<open>Progress of the loops\<close>

text \<open>
  A live actor whose process application is reliable can always go on: the pusher makes
  room in the push-prompt queue, the processor hands over what it holds and what the event
  queue holds, the puller puts what it has read, and a round of the puller comes to its
  end. Each lemma gives an execution that does it, without an exception.
\<close>

lemma read_names_append [simp]: "read_names (t1 @ t2) = read_names t1 @ read_names t2"
  by (induction t1 rule: read_names.induct) auto

lemma fault_free_append [simp]: "fault_free (t1 @ t2) = (fault_free t1 \<and> fault_free t2)"
  by (simp add: fault_free_def)
































subsection \<open>The order of application\<close>

lemma read_ids_append [simp]: "read_ids u (t1 @ t2) = read_ids u t1 @ read_ids u t2"
  by (simp add: read_ids_def)

lemma handed_ids_append [simp]: "handed_ids u (t1 @ t2) = handed_ids u t1 @ handed_ids u t2"
  by (simp add: handed_ids_def)

lemma queue_ids_append [simp]: "queue_ids u (q1 @ q2) = queue_ids u q1 @ queue_ids u q2"
  by (simp add: queue_ids_def)















subsection \<open>The causal-dependency check\<close>

lemma checked_first_append:
  "checked_first C P (t1 @ t2) =
     (checked_first C P t1 \<and> checked_first (C \<union> checks t1) (P \<union> puts t1) t2)"
  by (induction C P t1 rule: checked_first.induct) auto

lemma puller_step_guarded:
  assumes "process_notifications A order pc s = Some (pc', s', evs)"
    and "set (upstream_event_queue s) \<subseteq> P"
    and "\<forall>names u ns x. pc = PullerPutting names u ns x \<longrightarrow> snd x \<in> C"
  shows "checked_first C P evs \<and>
         set (upstream_event_queue s') \<subseteq> P \<union> puts evs \<and>
         (\<forall>names u ns x. pc' = PullerPutting names u ns x \<longrightarrow> snd x \<in> C \<union> checks evs) \<and>
         process_events_thread s' = process_events_thread s"
  using assms
  by (induction A order pc s rule: process_notifications.induct)
     (auto simp: queue_put_def split: if_splits option.splits sum.splits prod.splits)

lemma processor_step_guarded:
  assumes "process_events A pc s = Some (pc', s', evs)"
    and "set (upstream_event_queue s) \<subseteq> P"
    and "\<forall>x. pc = ProcessorGot x \<longrightarrow> x \<in> P"
  shows "checked_first C P evs \<and> checks evs = {} \<and> puts evs = {} \<and>
         set (upstream_event_queue s') \<subseteq> P \<and>
         (\<forall>x. pc' = ProcessorGot x \<longrightarrow> x \<in> P) \<and>
         pull_notifications_thread s' = pull_notifications_thread s"
  using assms
  by (induction A pc s rule: process_events.induct)
     (auto simp: queue_put_def queue_get_def reset_readers_def
           split: if_splits option.splits sum.splits prod.splits list.splits outcome.splits)

lemma pusher_step_guarded:
  assumes "push_prompts response pc s = Some (pc', s', evs)"
  shows "checked_first C P evs \<and> checks evs = {} \<and> puts evs = {} \<and>
         upstream_event_queue s' = upstream_event_queue s \<and>
         pull_notifications_thread s' = pull_notifications_thread s \<and>
         process_events_thread s' = process_events_thread s"
  using assms
  by (induction response pc s rule: push_prompts.induct)
     (auto simp: queue_get_def
           split: if_splits option.splits prod.splits list.splits)

lemma other_step_guarded:
  assumes "step A a s = Some (s', evs)"
    and "a = Prompt b m \<or> a = Publish ps \<or> a = StopSignal \<or> a = StopWake"
  shows "checked_first C P evs \<and> checks evs = {} \<and> puts evs = {} \<and>
         upstream_event_queue s' = upstream_event_queue s \<and>
         pull_notifications_thread s' = pull_notifications_thread s \<and>
         process_events_thread s' = process_events_thread s"
  using assms
  by (auto simp: prompt_def stop_signal_def stop_wake_def unsubscribe_def Let_def queue_put_def
        enqueue_prompt_def publish_def
        split: if_splits option.splits outcome.splits list.splits)

lemma guarded_step:
  assumes "guarded s C P" and "step A a s = Some (s', evs)"
  shows "checked_first C P evs \<and> guarded s' (C \<union> checks evs) (P \<union> puts evs)"
proof (cases a)
  case (Pull order)
  from assms(2) Pull obtain qc qc' s1 where
    qc: "pull_notifications_thread s = Some qc" and
    st: "process_notifications A order qc s = Some (qc', s1, evs)" and
    s': "s' = s1\<lparr>pull_notifications_thread := Some qc'\<rparr>"
    by (auto split: option.splits)
  from assms(1) qc have 1: "set (upstream_event_queue s) \<subseteq> P"
    and 2: "\<forall>names u ns x. qc = PullerPutting names u ns x \<longrightarrow> snd x \<in> C"
    by (auto simp: guarded_def)
  from puller_step_guarded [OF st 1 2] assms(1) s' show ?thesis
    by (auto simp: guarded_def)
next
  case Process
  from assms(2) Process obtain pc pc' s1 where
    pc: "process_events_thread s = Some pc" and
    st: "process_events A pc s = Some (pc', s1, evs)" and
    s': "s' = s1\<lparr>process_events_thread := Some pc'\<rparr>"
    by (auto split: option.splits)
  from assms(1) pc have 1: "set (upstream_event_queue s) \<subseteq> P"
    and 2: "\<forall>x. pc = ProcessorGot x \<longrightarrow> x \<in> P"
    by (auto simp: guarded_def)
  from processor_step_guarded [OF st 1 2, of C] assms(1) s' show ?thesis
    by (auto simp: guarded_def)
next
  case (Push response)
  from assms(2) Push obtain qc qc' s1 where
    st: "push_prompts response qc s = Some (qc', s1, evs)" and
    s': "s' = s1\<lparr>push_prompts_thread := Some qc'\<rparr>"
    by (auto split: option.splits)
  from pusher_step_guarded [OF st, of C P] s' assms(1) show ?thesis
    by (auto simp: guarded_def)
next
  case (Prompt b m)
  with other_step_guarded [OF assms(2), of b m _ C P] assms(1) show ?thesis
    by (auto simp: guarded_def)
next
  case (Publish ps)
  with other_step_guarded [OF assms(2), of _ _ ps C P] assms(1) show ?thesis
    by (auto simp: guarded_def)
next
  case StopSignal
  with other_step_guarded [OF assms(2), of _ _ _ C P] assms(1) show ?thesis
    by (auto simp: guarded_def)
next
  case StopWake
  with other_step_guarded [OF assms(2), of _ _ _ C P] assms(1) show ?thesis
    by (auto simp: guarded_def)
qed

lemma guarded_exec:
  "exec A as s = Some (s', t) \<Longrightarrow> guarded s C P \<Longrightarrow> checked_first C P t"
proof (induction as arbitrary: s t C P)
  case Nil
  then show ?case by simp
next
  case (Cons a as)
  from Cons.prems(1) obtain s1 evs t1 where
    st: "step A a s = Some (s1, evs)" and ex: "exec A as s1 = Some (s', t1)" and
    t: "t = evs @ t1"
    by (rule exec_Cons_Some)
  from guarded_step [OF Cons.prems(2) st]
  have 1: "checked_first C P evs" and 2: "guarded s1 (C \<union> checks evs) (P \<union> puts evs)"
    by simp_all
  from Cons.IH [OF ex 2] 1 t show ?case
    by (simp add: checked_first_append)
qed

lemma run_guarded:
  assumes "init A (RayProcess_init c i pid tbl) logs downstream = Returned () s1"
    and "run A s1 = Returned () s"
  shows "guarded s {} {}"
  using assms
  by (auto simp: guarded_def run_def init_def reset_readers_def
        RayProcess_init_def subscribe_def Let_def
        split: outcome.splits option.splits sum.splits prod.splits if_splits)

text \<open>
  C2. Take an actor that \<^verbatim>\<open>init\<close> and \<^verbatim>\<open>run\<close> have started and any execution of it,
  with or without exceptions and resets. Every item handed to \<^verbatim>\<open>process_upstream_event\<close>
  was put on the event queue before, and every item put on the event queue has the id and
  the upstream of a notification for which \<^verbatim>\<open>check_causal_dependencies\<close> was called
  before and returned without an exception. And when the check of a notification raises,
  the puller ends with that exception, releasing the event-reading lock: the notification
  is not put on the event queue.
\<close>

theorem checked_before_handed:
  assumes "init A (RayProcess_init c i pid tbl) logs downstream = Returned () s1"
    and "run A s1 = Returned () s"
    and "exec A as s = Some (s', t)"
  shows "checked_first {} {} t \<and>
         (\<forall>r p order names u n ns e.
            process r = Some p \<and>
            check_causal_dependencies A p u (causal_dependencies n) = Some e \<longrightarrow>
            process_notifications A order (PullerChecking names u (n # ns)) r =
              Some (PullerCrashed e, r\<lparr>event_reading_lock := False\<rparr>,
                    [CheckEv u n (Some e), FaultEv e]))"
  using guarded_exec [OF assms(3) run_guarded [OF assms(1) assms(2)]]
  by simp

theorem checked_before_handed_witness:
  "checked_first {} {} example_trace \<and>
   \<not> checked_first {} {} [PutEv (''paid'', 2, ''u''), HandedEv (''paid'', 2, ''u'')]"
proof -
  from checked_before_handed [OF example_init example_run example_exec]
  have "checked_first {} {} example_trace" by blast
  moreover have "\<not> checked_first {} {} [PutEv (''paid'', 2, ''u''), HandedEv (''paid'', 2, ''u'')]"
    by simp
  ultimately show ?thesis by blast
qed

subsection \<open>A round of the puller\<close>


















subsection \<open>One event in the processor\<close>

text \<open>
  C7. The processor has taken an item, the stop signal is not set, and
  \<^verbatim>\<open>process_upstream_event\<close> returns. With no new event the thread is back at the head of
  its loop after that step and the push-prompt queue is as it was. With new events, and
  room in the queue, the thread is back at the head of its loop after one more step and the
  queue has grown by one prompt, the \<^verbatim>\<open>RayPrompt\<close> with the name and the pipeline id of
  the process; without room the thread waits to put that prompt.
\<close>

theorem prompt_after_apply:
  assumes "process_events_thread s = Some (ProcessorGot (ev, i, u))"
    and "\<not> has_been_stopped s"
    and "process s = Some p"
    and "process_upstream_event A p ev i u = (Inr new_events, p')"
  shows "(new_events = [] \<longrightarrow>
           step A Process s =
             Some (s\<lparr>process := Some p', process_events_thread := Some ProcessorLoop\<rparr>,
                   [HandedEv (ev, i, u)])) \<and>
         (new_events \<noteq> [] \<and> length (push_prompt_queue s) < maxsize \<longrightarrow>
           exec A [Process, Process] s =
             Some (s\<lparr>process := Some p',
                      push_prompt_queue := push_prompt_queue s @
                        [Some (RayPrompt (app_name A p') (app_pipeline_id A p'))],
                      process_events_thread := Some ProcessorLoop\<rparr>,
                   [HandedEv (ev, i, u),
                    PromptPutEv (RayPrompt (app_name A p') (app_pipeline_id A p'))])) \<and>
         (new_events \<noteq> [] \<and> \<not> length (push_prompt_queue s) < maxsize \<longrightarrow>
           exec A [Process, Process] s = None)"
  using assms by (simp add: queue_put_def)

theorem prompt_after_apply_witness:
  "exec example_application [Process, Process] got_actor =
     Some (got_actor\<lparr>process := Some \<lparr>position = 0, tracked = 2\<rparr>,
                      push_prompt_queue := push_prompt_queue got_actor @
                        [Some (RayPrompt
                                 (app_name example_application \<lparr>position = 0, tracked = 2\<rparr>)
                                 (app_pipeline_id example_application
                                    \<lparr>position = 0, tracked = 2\<rparr>))],
                      process_events_thread := Some ProcessorLoop\<rparr>,
           [HandedEv (''paid'', 2, ''u''),
            PromptPutEv (RayPrompt
                           (app_name example_application \<lparr>position = 0, tracked = 2\<rparr>)
                           (app_pipeline_id example_application
                              \<lparr>position = 0, tracked = 2\<rparr>))]) \<and>
   app_name example_application \<lparr>position = 0, tracked = 2\<rparr> = ''orders'' \<and>
   push_prompt_queue got_actor = []"
proof -
  have 1: "process_events_thread got_actor = Some (ProcessorGot (''paid'', 2, ''u''))"
    by (simp add: got_actor_def)
  have 2: "\<not> has_been_stopped got_actor"
    by (simp add: got_actor_def example_actor_def)
  have 3: "process got_actor = Some \<lparr>position = 0, tracked = 0\<rparr>"
    by (simp add: got_actor_def example_actor_def)
  have 4: "process_upstream_event example_application \<lparr>position = 0, tracked = 0\<rparr>
             ''paid'' 2 ''u'' = (Inr [''paid''], \<lparr>position = 0, tracked = 2\<rparr>)"
    by (simp add: example_application_def)
  have 5: "[''paid''] \<noteq> [] \<and> length (push_prompt_queue got_actor) < maxsize"
    by (simp add: got_actor_def example_actor_def maxsize_def)
  have 6: "app_name example_application \<lparr>position = 0, tracked = 2\<rparr> = ''orders''"
    by (simp add: example_application_def)
  have 7: "push_prompt_queue got_actor = []"
    by (simp add: got_actor_def example_actor_def)
  from prompt_after_apply [OF 1 2 3 4] 5 6 7 show ?thesis by blast
qed

text \<open>
  What the handler of the exception does when it runs. An exception raised by
  \<^verbatim>\<open>process_upstream_event\<close> is caught: the thread goes to the handler. The handler,
  once the event-reading lock is free, and when resetting the position of every reader
  from its tracking records raises nothing, leaves in one step a state where every reader
  of the process has been reset, the event queue is empty, every key of \<^verbatim>\<open>upstream_logs\<close>
  is in the pending set and the prompted signal is set; the thread is back at the head of
  its loop.
\<close>

lemma handler_resets:
  "(process_events_thread s = Some (ProcessorGot (ev, i, u)) \<and> \<not> has_been_stopped s \<and>
    process s = Some p \<and> process_upstream_event A p ev i u = (Inl e, p') \<longrightarrow>
      step A Process s =
        Some (s\<lparr>process := Some p', process_events_thread := Some (ProcessorFailed e)\<rparr>,
              [HandedEv (ev, i, u), FaultEv e])) \<and>
   (process_events_thread r = Some (ProcessorFailed e) \<and> \<not> event_reading_lock r \<and>
    process r = Some q \<and> reset_all A q (readers A q) = (None, q') \<and>
    upstream_logs r = Some logs \<longrightarrow>
      step A Process r =
        Some (r\<lparr>process := Some q', upstream_event_queue := [],
                 prompted_names := prompted_names r \<union> set (map fst logs),
                 has_been_prompted := True,
                 process_events_thread := Some ProcessorLoop\<rparr>,
              [ResetEv]))"
  by (simp add: reset_readers_def)

text \<open>
  An exception raised by the reset itself, inside the handler, is not caught: the thread
  of the processor ends there, the event queue is not cleared, no name is added to the
  pending set and the prompted signal is not set.
\<close>

lemma handler_raises:
  assumes "process_events_thread r = Some (ProcessorFailed e)" and "\<not> event_reading_lock r"
    and "process r = Some q" and "reset_all A q (readers A q) = (Some e', q')"
  shows "exec A [Process] r =
           Some (r\<lparr>process := Some q', process_events_thread := Some (ProcessorCrashed e')\<rparr>,
                 [FaultEv e']) \<and>
         exec A [Process, Process] r = None"
  using assms by (simp add: reset_readers_def)

text \<open>
  The puller, with notifications to check whose checks return and whose events are built,
  and room in the event queue for them, puts them all, two steps for each.
\<close>

lemma length_flood_ids: "length flood_ids = 100"
  by (simp add: flood_ids_def)

lemma puller_fills:
  assumes "process s = Some p"
    and "\<forall>n\<in>set ns. check_causal_dependencies A p u (causal_dependencies n) = None \<and>
                    get_event_from_notification A p n = Inr (dec n)"
    and "pull_notifications_thread s = Some (PullerChecking names u (ns @ rest))"
    and "length (upstream_event_queue s) + length ns \<le> maxsize"
  shows "exec A (concat (map (\<lambda>n. [Pull order, Pull order]) ns)) s =
           Some (s\<lparr>upstream_event_queue :=
                     upstream_event_queue s @ map (\<lambda>n. (dec n, nid n, u)) ns,
                   pull_notifications_thread := Some (PullerChecking names u rest)\<rparr>,
                 concat (map (\<lambda>n. [CheckEv u n None, PutEv (dec n, nid n, u)]) ns))"
  using assms
proof (induction ns arbitrary: s)
  case Nil
  then have "s\<lparr>upstream_event_queue := upstream_event_queue s,
               pull_notifications_thread := Some (PullerChecking names u rest)\<rparr> = s"
    by simp
  then show ?case by simp
next
  case (Cons n ns)
  let ?s1 = "s\<lparr>upstream_event_queue := upstream_event_queue s @ [(dec n, nid n, u)],
               pull_notifications_thread := Some (PullerChecking names u (ns @ rest))\<rparr>"
  from Cons.prems have st: "exec A [Pull order, Pull order] s =
      Some (?s1, [CheckEv u n None, PutEv (dec n, nid n, u)])"
    by (simp add: queue_put_def)
  have "exec A (concat (map (\<lambda>n. [Pull order, Pull order]) ns)) ?s1 =
          Some (?s1\<lparr>upstream_event_queue :=
                     upstream_event_queue ?s1 @ map (\<lambda>n. (dec n, nid n, u)) ns,
                   pull_notifications_thread := Some (PullerChecking names u rest)\<rparr>,
                 concat (map (\<lambda>n. [CheckEv u n None, PutEv (dec n, nid n, u)]) ns))"
    using Cons.prems by (intro Cons.IH) simp_all
  with st have "exec A ([Pull order, Pull order] @ concat (map (\<lambda>n. [Pull order, Pull order]) ns)) s =
     Some (?s1\<lparr>upstream_event_queue :=
                     upstream_event_queue ?s1 @ map (\<lambda>n. (dec n, nid n, u)) ns,
                   pull_notifications_thread := Some (PullerChecking names u rest)\<rparr>,
           [CheckEv u n None, PutEv (dec n, nid n, u)] @
                 concat (map (\<lambda>n. [CheckEv u n None, PutEv (dec n, nid n, u)]) ns))"
    by (simp only: exec_append option.case prod.case)
  then show ?case by simp
qed

text \<open>
  C3 fails on the code. The handler takes the event-reading lock before it resets, and the
  puller holds that lock during its whole round, also while it waits for room in the event
  queue. In the execution \<open>flood_schedule\<close> of the example actor, as \<^verbatim>\<open>init\<close> and \<^verbatim>\<open>run\<close>
  have started it, with 102 notifications upstream, the exception of \<^verbatim>\<open>process_upstream_event\<close> is raised while the event queue
  is full and the puller waits to put: the processor is in the handler and waits for the
  lock, the puller waits for the processor to take an item, and neither moves; no reset
  is made.
\<close>

theorem handler_deadlock:
  "init flood_application
     (RayProcess_init example_class (Some example_infrastructure) 0 False)
     [(''u'', RayNotificationLog 0 5)] [] = Returned () example_inited \<and>
   run flood_application example_inited = Returned () example_actor \<and>
   exec flood_application flood_schedule example_actor = Some (stuck_actor, flood_trace) \<and>
   process_events_thread stuck_actor = Some (ProcessorFailed RecordConflictError) \<and>
   length (upstream_event_queue stuck_actor) = maxsize \<and>
   step flood_application Process stuck_actor = None \<and>
   step flood_application (Pull []) stuck_actor = None"
proof -
  let ?rest = "[flood_notification 102]"
  let ?mid = "map flood_notification flood_ids"
  let ?s1 = "example_actor
       \<lparr> process := Some \<lparr>position = 102, tracked = 0\<rparr>,
         event_reading_lock := True,
         pull_notifications_thread := Some (PullerChecking [] ''u'' (?mid @ ?rest)),
         process_events_thread := Some (ProcessorGot (''bad'', 1, ''u'')) \<rparr>"
  let ?s2 = "?s1\<lparr>upstream_event_queue :=
                     upstream_event_queue ?s1 @ map (\<lambda>n. (payload n, nid n, ''u'')) ?mid,
                   pull_notifications_thread := Some (PullerChecking [] ''u'' ?rest)\<rparr>"
  have 1: "exec flood_application [Pull [], Pull [], Pull [], Pull [], Pull [], Process, Process]
             example_actor =
           Some (?s1, [ReadEv ''u'' flood_log, CheckEv ''u'' (flood_notification 1) None,
                       PutEv (''bad'', 1, ''u'')])"
    by (simp add: flood_application_def example_application_def example_actor_def flood_log_def
        flood_notification_def queue_put_def queue_get_def maxsize_def length_flood_ids)
  have p: "process ?s1 = Some \<lparr>position = 102, tracked = 0\<rparr>" by simp
  have c: "\<forall>n\<in>set ?mid.
             check_causal_dependencies flood_application \<lparr>position = 102, tracked = 0\<rparr> ''u''
               (causal_dependencies n) = None \<and>
             get_event_from_notification flood_application \<lparr>position = 102, tracked = 0\<rparr> n =
               Inr (payload n)"
    by (auto simp: flood_application_def example_application_def flood_notification_def)
  have t: "pull_notifications_thread ?s1 = Some (PullerChecking [] ''u'' (?mid @ ?rest))" by simp
  have l: "length (upstream_event_queue ?s1) + length ?mid \<le> maxsize"
    by (simp add: example_actor_def length_flood_ids maxsize_def)
  from puller_fills [OF p c t l, of "[]"]
  have 2: "exec flood_application (concat (replicate 100 [Pull [], Pull []])) ?s1 =
           Some (?s2, concat (map (\<lambda>n. [CheckEv ''u'' n None, PutEv (payload n, nid n, ''u'')]) ?mid))"
    by (simp only: map_replicate_const length_map length_flood_ids)
  have 3: "exec flood_application [Pull [], Process] ?s2 =
           Some (stuck_actor, [CheckEv ''u'' (flood_notification 102) None,
                               HandedEv (''bad'', 1, ''u''), FaultEv RecordConflictError])"
    by (simp add: flood_application_def example_application_def example_actor_def stuck_actor_def
        flood_notification_def o_def)
  have tr: "concat (map (\<lambda>n. [CheckEv ''u'' n None, PutEv (payload n, nid n, ''u'')]) ?mid) =
        concat (map (\<lambda>i. [CheckEv ''u'' (flood_notification i) None, PutEv (''bad'', int i, ''u'')])
               flood_ids)"
    by (simp add: o_def flood_notification_def)
  from 1 2 3 have "exec flood_application flood_schedule example_actor =
     Some (stuck_actor, [ReadEv ''u'' flood_log, CheckEv ''u'' (flood_notification 1) None,
                       PutEv (''bad'', 1, ''u'')] @
        concat (map (\<lambda>n. [CheckEv ''u'' n None, PutEv (payload n, nid n, ''u'')]) ?mid) @
        [CheckEv ''u'' (flood_notification 102) None,
                               HandedEv (''bad'', 1, ''u''), FaultEv RecordConflictError])"
    unfolding flood_schedule_def
    by (simp only: exec_append option.case prod.case)
  with tr have a: "exec flood_application flood_schedule example_actor = Some (stuck_actor, flood_trace)"
    by (simp only: flood_trace_def)
  have b: "process_events_thread stuck_actor = Some (ProcessorFailed RecordConflictError) \<and>
   length (upstream_event_queue stuck_actor) = maxsize \<and>
   step flood_application Process stuck_actor = None \<and>
   step flood_application (Pull []) stuck_actor = None"
    by (simp add: stuck_actor_def length_flood_ids maxsize_def queue_put_def)
  have c: "init flood_application
     (RayProcess_init example_class (Some example_infrastructure) 0 False)
     [(''u'', RayNotificationLog 0 5)] [] = Returned () example_inited \<and>
   run flood_application example_inited = Returned () example_actor"
    by (simp add: init_def run_def reset_readers_def RayProcess_init_def subscribe_def
        flood_application_def example_application_def example_class_def example_inited_def
        example_actor_def Let_def)
  from a b c show ?thesis by blast
qed

text \<open>
  Such a state stays: whatever else happens to the actor, the processor stays in the
  handler, the puller in its put, the event queue full, and no reset is made.
\<close>

lemma deadlock_step:
  assumes "step A a s = Some (s1, evs)"
    and "process_events_thread s = Some (ProcessorFailed e)"
    and "pull_notifications_thread s = Some (PullerPutting names u ns x)"
    and "event_reading_lock s"
    and "maxsize \<le> length (upstream_event_queue s)"
  shows "process_events_thread s1 = Some (ProcessorFailed e) \<and>
         pull_notifications_thread s1 = Some (PullerPutting names u ns x) \<and>
         event_reading_lock s1 \<and> upstream_event_queue s1 = upstream_event_queue s \<and>
         ResetEv \<notin> set evs \<and> a \<noteq> Process \<and> (\<forall>order. a \<noteq> Pull order)"
proof (cases a)
  case (Pull order)
  with assms show ?thesis by (simp add: queue_put_def)
next
  case Process
  with assms show ?thesis by simp
next
  case (Push response)
  from assms(1) Push obtain qc qc' s2 where
    st: "push_prompts response qc s = Some (qc', s2, evs)" and
    s1: "s1 = s2\<lparr>push_prompts_thread := Some qc'\<rparr>"
    by (auto split: option.splits)
  from st have "process_events_thread s2 = process_events_thread s \<and>
         pull_notifications_thread s2 = pull_notifications_thread s \<and>
         event_reading_lock s2 = event_reading_lock s \<and>
         upstream_event_queue s2 = upstream_event_queue s \<and> ResetEv \<notin> set evs"
    by (induction response qc s rule: push_prompts.induct)
       (auto simp: queue_get_def split: if_splits option.splits prod.splits list.splits)
  with s1 assms Push show ?thesis by simp
next
  case (Prompt b m)
  with assms show ?thesis
    by (auto simp: prompt_def split: option.splits if_splits)
next
  case (Publish ps)
  with assms show ?thesis
    by (auto simp: enqueue_prompt_def publish_def queue_put_def
          split: option.splits if_splits list.splits outcome.splits)
next
  case StopSignal
  with assms show ?thesis by (auto simp: stop_signal_def)
next
  case StopWake
  with assms show ?thesis
    by (auto simp: stop_wake_def unsubscribe_def Let_def queue_put_def
          split: option.splits if_splits outcome.splits)
qed

lemma deadlock_stays:
  assumes "exec A as s = Some (s', t)"
    and "process_events_thread s = Some (ProcessorFailed e)"
    and "pull_notifications_thread s = Some (PullerPutting names u ns x)"
    and "event_reading_lock s"
    and "maxsize \<le> length (upstream_event_queue s)"
  shows "process_events_thread s' = Some (ProcessorFailed e) \<and>
         pull_notifications_thread s' = Some (PullerPutting names u ns x) \<and>
         event_reading_lock s' \<and> upstream_event_queue s' = upstream_event_queue s \<and>
         ResetEv \<notin> set t \<and> Process \<notin> set as \<and> (\<forall>order. Pull order \<notin> set as)"
  using assms
proof (induction as arbitrary: s t)
  case Nil
  then show ?case by simp
next
  case (Cons a as)
  from Cons.prems(1) obtain s1 evs t1 where
    st: "step A a s = Some (s1, evs)" and ex: "exec A as s1 = Some (s', t1)" and t: "t = evs @ t1"
    by (rule exec_Cons_Some)
  note d = deadlock_step [OF st Cons.prems(2-5)]
  from d have q: "maxsize \<le> length (upstream_event_queue s1)" using Cons.prems(5) by simp
  from Cons.IH [OF ex _ _ _ q] d
  have "process_events_thread s' = Some (ProcessorFailed e) \<and>
         pull_notifications_thread s' = Some (PullerPutting names u ns x) \<and>
         event_reading_lock s' \<and> upstream_event_queue s' = upstream_event_queue s1 \<and>
         ResetEv \<notin> set t1 \<and> Process \<notin> set as \<and> (\<forall>order. Pull order \<notin> set as)"
    by blast
  with d t show ?case by auto
qed

subsection \<open>The runner\<close>

lemma spawned_of_append [simp]: "spawned_of (a @ b) = spawned_of a @ spawned_of b"
  by (induction a rule: spawned_of.induct) auto
lemma inits_of_append [simp]: "inits_of (a @ b) = inits_of a @ inits_of b"
  by (induction a rule: inits_of.induct) auto
lemma runs_of_append [simp]: "runs_of (a @ b) = runs_of a @ runs_of b"
  by (induction a rule: runs_of.induct) auto

lemma map_of_dict_set: "map_of (dict_set k v d) = (map_of d)(k \<mapsto> v)"
  by (induction d) auto

lemma init_all_effects:
  "init_all sys d items = (res, inits) \<Longrightarrow>
   runs_of inits = [] \<and> spawned_of inits = [] \<and>
   (res = None \<longrightarrow> inits_of inits = map snd items)"
proof (induction sys d items arbitrary: res inits rule: init_all.induct)
  case (1 sys d)
  then show ?case by simp
next
  case (2 sys d process_name pid h items)
  then show ?case
    by (auto split: option.splits sum.splits prod.splits)
qed

lemma spawn_processes_effects:
  "spawn_processes uri pid cs (d, n, tr) = (d', n', tr') \<Longrightarrow>
   runs_of tr' = runs_of tr \<and> inits_of tr' = inits_of tr"
  by (induction uri pid cs "(d, n, tr)" arbitrary: d n tr rule: spawn_processes.induct) auto

lemma spawn_pipelines_effects:
  "spawn_pipelines uri pids cs (d, n, tr) = (d', n', tr') \<Longrightarrow>
   runs_of tr' = runs_of tr \<and> inits_of tr' = inits_of tr"
proof (induction pids arbitrary: d n tr)
  case Nil
  then show ?case by simp
next
  case (Cons pid pids)
  obtain d1 n1 tr1 where sp: "spawn_processes uri pid cs (d, n, tr) = (d1, n1, tr1)"
    by (cases "spawn_processes uri pid cs (d, n, tr)") auto
  with Cons.prems have "spawn_pipelines uri pids cs (d1, n1, tr1) = (d', n', tr')" by simp
  from Cons.IH [OF this] spawn_processes_effects [OF sp] show ?case by simp
qed

lemma ray_get_None: "ray_get failure xs = None \<Longrightarrow> \<forall>x \<in> set xs. failure x = None"
  by (induction xs) (auto split: option.splits)

lemma runs_of_map_RunEff: "runs_of (map (\<lambda>(key, h). RunEff h) d) = map snd d"
  by (induction d) auto

lemma runs_of_mem: "RunEff h \<in> set t \<Longrightarrow> h \<in> set (runs_of t)"
  by (induction t rule: runs_of.induct) auto

lemma split_after_prefix:
  "xs @ ys = pre @ z # post \<Longrightarrow> z \<notin> set xs \<Longrightarrow> \<exists>b. pre = xs @ b"
proof (induction xs arbitrary: pre)
  case Nil
  then show ?case by simp
next
  case (Cons x xs)
  show ?case
  proof (cases pre)
    case Nil
    with Cons.prems show ?thesis by simp
  next
    case (Cons p pre')
    with Cons.prems Cons.IH [of pre'] show ?thesis by auto
  qed
qed

lemma spawn_processes_placed:
  "spawn_processes uri pid cs (d, n, tr) = (d', n', tr') \<Longrightarrow> placed d tr \<Longrightarrow>
   distinct (map fst cs) \<Longrightarrow> \<forall>nm \<in> fst ` set cs. (nm, pid) \<notin> fst ` set (spawned_of tr) \<Longrightarrow>
   placed d' tr' \<and>
   fst ` set (spawned_of tr') = fst ` set (spawned_of tr) \<union> (\<lambda>nm. (nm, pid)) ` fst ` set cs"
proof (induction uri pid cs "(d, n, tr)" arbitrary: d n tr rule: spawn_processes.induct)
  case (1 uri pid acc)
  then show ?case by simp
next
  case (2 uri pid process_name c cs d "next" tr)
  let ?d = "dict_set (process_name, pid) next d"
  let ?tr = "tr @ [SpawnEff next process_name c pid uri]"
  have p: "placed ?d ?tr"
  proof -
    have fresh: "\<forall>h. ((process_name, pid), h) \<notin> set (spawned_of tr)"
      using "2.prems"(4) by force
    have "map_of ?d k = Some h" if "(k, h) \<in> set (spawned_of ?tr)" for k h
    proof (cases "k = (process_name, pid)")
      case True
      with that fresh show ?thesis by (auto simp: map_of_dict_set)
    next
      case False
      with that have "(k, h) \<in> set (spawned_of tr)" by auto
      with "2.prems"(2) have "map_of d k = Some h" by (auto simp: placed_def)
      with False show ?thesis by (simp add: map_of_dict_set)
    qed
    then show ?thesis by (auto simp: placed_def)
  qed
  have f: "\<forall>nm \<in> fst ` set cs. (nm, pid) \<notin> fst ` set (spawned_of ?tr)"
    using "2.prems"(3,4) by (auto simp: image_iff)
  from "2.prems"(1) have sp: "spawn_processes uri pid cs (?d, Suc next, ?tr) = (d', n', tr')"
    by simp
  from "2.prems"(3) have dc: "distinct (map fst cs)" by simp
  from "2.hyps" [OF sp p dc f] show ?case by auto
qed

lemma spawn_pipelines_placed:
  "spawn_pipelines uri pids cs (d, n, tr) = (d', n', tr') \<Longrightarrow> placed d tr \<Longrightarrow>
   distinct (map fst cs) \<Longrightarrow> distinct pids \<Longrightarrow>
   \<forall>pid \<in> set pids. pid \<notin> snd ` fst ` set (spawned_of tr) \<Longrightarrow>
   placed d' tr'"
proof (induction pids arbitrary: d n tr)
  case Nil
  then show ?case by simp
next
  case (Cons pid pids)
  obtain d1 n1 tr1 where sp: "spawn_processes uri pid cs (d, n, tr) = (d1, n1, tr1)"
    by (cases "spawn_processes uri pid cs (d, n, tr)") auto
  with Cons.prems(1) have rest: "spawn_pipelines uri pids cs (d1, n1, tr1) = (d', n', tr')"
    by simp
  have fresh: "\<forall>nm \<in> fst ` set cs. (nm, pid) \<notin> fst ` set (spawned_of tr)"
    using Cons.prems(5) by force
  from spawn_processes_placed [OF sp Cons.prems(2) Cons.prems(3) fresh]
  have p1: "placed d1 tr1"
    and k1: "fst ` set (spawned_of tr1) =
             fst ` set (spawned_of tr) \<union> (\<lambda>nm. (nm, pid)) ` fst ` set cs"
    by simp_all
  from Cons.prems(4) have dp: "distinct pids" and np: "pid \<notin> set pids" by simp_all
  have f1: "\<forall>q \<in> set pids. q \<notin> snd ` fst ` set (spawned_of tr1)"
  proof
    fix q assume q: "q \<in> set pids"
    with Cons.prems(5) have a: "q \<notin> snd ` fst ` set (spawned_of tr)" by simp
    from q np have "q \<noteq> pid" by auto
    then have b: "q \<notin> snd ` (\<lambda>nm. (nm, pid)) ` fst ` set cs" by auto
    from a b show "q \<notin> snd ` fst ` set (spawned_of tr1)"
      unfolding k1 image_Un by blast
  qed
  from Cons.IH [OF rest p1 Cons.prems(3) dp f1] show ?case .
qed

lemma start_shape:
  assumes "start r environ next failure = (res, r', tr)" and "RunEff h \<in> set tr"
  shows "\<exists>uri d nxt spawned inits.
           spawn_pipelines uri (pipeline_ids r) (process_classes (runner_system r))
             (ray_processes r, next, []) = (d, nxt, spawned) \<and>
           init_all (runner_system r) d d = (None, inits) \<and>
           ray_get failure (map (\<lambda>(key, h). InitRef h) d) = None \<and>
           r' = r\<lparr>ray_processes := d\<rparr> \<and>
           tr = spawned @ inits @ [GetEff (map (\<lambda>(key, h). InitRef h) d)] @
                map (\<lambda>(key, h). RunEff h) d @ [GetEff (map (\<lambda>(key, h). RunRef h) d)]"
proof -
  from assms(2) have run: "runs_of tr \<noteq> []" using runs_of_mem by fastforce
  show ?thesis
  proof (cases "check_classes (runner_infrastructure_class r)
                  (map snd (process_classes (runner_system r)))")
    case (Some e)
    with assms(1) have "tr = []" by (simp add: start_def)
    with run show ?thesis by simp
  next
    case None
    note cc = None
    show ?thesis
    proof (cases "get_db_uri r environ")
      case None
      with cc assms(1) have "tr = []" by (simp add: start_def)
      with run show ?thesis by simp
    next
      case (Some uri)
      show ?thesis
      proof (cases "uri = []")
        case True
        with cc Some assms(1) have "tr = []" by (simp add: start_def)
        with run show ?thesis by simp
      next
        case False
        obtain d nxt spawned where
          sp: "spawn_pipelines uri (pipeline_ids r) (process_classes (runner_system r))
                 (ray_processes r, next, []) = (d, nxt, spawned)"
          by (cases "spawn_pipelines uri (pipeline_ids r) (process_classes (runner_system r))
                 (ray_processes r, next, [])") auto
        obtain ires inits where ia: "init_all (runner_system r) d d = (ires, inits)"
          by (cases "init_all (runner_system r) d d") auto
        from spawn_pipelines_effects [OF sp] have rs: "runs_of spawned = []" by simp
        from init_all_effects [OF ia] have ri: "runs_of inits = []" by simp
        show ?thesis
        proof (cases ires)
          case (Some e)
          with cc \<open>get_db_uri r environ = Some uri\<close> False sp ia assms(1)
          have "tr = spawned @ inits" by (simp add: start_def)
          with rs ri run show ?thesis by simp
        next
          case None
          note ok = None
          show ?thesis
          proof (cases "ray_get failure (map (\<lambda>(key, h). InitRef h) d)")
            case (Some e)
            with cc \<open>get_db_uri r environ = Some uri\<close> False sp ia ok assms(1)
            have "tr = spawned @ inits @ [GetEff (map (\<lambda>(key, h). InitRef h) d)]"
              by (simp add: start_def)
            with rs ri run show ?thesis by simp
          next
            case None
            with cc \<open>get_db_uri r environ = Some uri\<close> False sp ia ok assms(1)
            have "r' = r\<lparr>ray_processes := d\<rparr> \<and>
                  tr = spawned @ inits @ [GetEff (map (\<lambda>(key, h). InitRef h) d)] @
                    map (\<lambda>(key, h). RunEff h) d @ [GetEff (map (\<lambda>(key, h). RunRef h) d)]"
              by (auto simp: start_def)
            with sp ia ok None show ?thesis by blast
          qed
        qed
      qed
    qed
  qed
qed


lemma runs_of_Nil: "runs_of x = [] \<Longrightarrow> RunEff h \<notin> set x"
  using runs_of_mem by fastforce

lemma spawned_of_runs: "spawned_of (map (\<lambda>(key, h). RunEff h) d) = []"
  by (induction d) auto

lemma placed_mem: "placed d tr \<Longrightarrow> snd ` set (spawned_of tr) \<subseteq> snd ` set d"
proof
  fix h assume p: "placed d tr" and "h \<in> snd ` set (spawned_of tr)"
  then obtain k where "(k, h) \<in> set (spawned_of tr)" by auto
  with p have "map_of d k = Some h" by (auto simp: placed_def)
  then have "(k, h) \<in> set d" by (rule map_of_SomeD)
  then show "h \<in> snd ` set d" by force
qed

lemma example_start:
  "start example_runner None 0 no_failure = (None, example_started, example_effects)"
  by (simp add: start_def example_runner_def example_system_def example_infrastructure_def
      example_class_def get_db_uri_def no_failure_def example_started_def example_effects_def)

lemma check_classes_fails:
  "c \<in> set cs \<Longrightarrow> \<not> concrete_instance c \<Longrightarrow>
   i = None \<or> (\<exists>ic. i = Some ic \<and> \<not> concrete_subclass ic) \<Longrightarrow>
   \<exists>m. check_classes i cs = Some (ProgrammingError m)"
  by (induction cs) auto

text \<open>
  C4. Whenever \<^verbatim>\<open>start\<close> sends \<^verbatim>\<open>run\<close> to an actor, it has before that sent \<^verbatim>\<open>init\<close> to
  every actor of \<^verbatim>\<open>ray_processes\<close>, it has sent \<^verbatim>\<open>run\<close> to none, and after the last \<^verbatim>\<open>init\<close>
  a \<^verbatim>\<open>ray.get\<close> on the results of all these \<^verbatim>\<open>init\<close> calls has returned, so that each of
  them has completed without an exception. The actor that is sent \<^verbatim>\<open>run\<close> is one of them.
  With pipeline ids that differ and process names that differ, every actor that this
  \<^verbatim>\<open>start\<close> has created is in \<^verbatim>\<open>ray_processes\<close>, so \<^verbatim>\<open>init\<close> was sent to every actor
  created. The loops of an actor are started by \<^verbatim>\<open>run\<close> only.
\<close>

theorem init_awaited_before_run:
  assumes "start r environ next failure = (res, r', tr)" and "tr = pre @ RunEff h # post"
  shows "\<exists>a b. pre = a @ GetEff (map (\<lambda>(key, h). InitRef h) (ray_processes r')) # b \<and>
           runs_of a = [] \<and>
           inits_of a = map snd (ray_processes r') \<and>
           (\<forall>h' \<in> snd ` set (ray_processes r'). failure (InitRef h') = None) \<and>
           h \<in> snd ` set (ray_processes r') \<and>
           (distinct (pipeline_ids r) \<and> distinct (map fst (process_classes (runner_system r))) \<longrightarrow>
              snd ` set (spawned_of tr) \<subseteq> snd ` set (ray_processes r'))"
proof -
  from assms(2) have mem: "RunEff h \<in> set tr" by simp
  from start_shape [OF assms(1) mem] obtain uri d nxt spawned inits where
    sp: "spawn_pipelines uri (pipeline_ids r) (process_classes (runner_system r))
           (ray_processes r, next, []) = (d, nxt, spawned)" and
    ia: "init_all (runner_system r) d d = (None, inits)" and
    rg: "ray_get failure (map (\<lambda>(key, h). InitRef h) d) = None" and
    r': "r' = r\<lparr>ray_processes := d\<rparr>" and
    tr: "tr = spawned @ inits @ [GetEff (map (\<lambda>(key, h). InitRef h) d)] @
              map (\<lambda>(key, h). RunEff h) d @ [GetEff (map (\<lambda>(key, h). RunRef h) d)]"
    by blast
  from r' have d: "ray_processes r' = d" by simp
  let ?get = "GetEff (map (\<lambda>(key, h). InitRef h) d)"
  let ?inits = "spawned @ inits @ [?get]"
  let ?runs = "map (\<lambda>(key, h). RunEff h) d @ [GetEff (map (\<lambda>(key, h). RunRef h) d)]"
  from spawn_pipelines_effects [OF sp]
  have rs: "runs_of spawned = []" and isp: "inits_of spawned = []" by simp_all
  from init_all_effects [OF ia]
  have ri: "runs_of inits = []" and ii: "inits_of inits = map snd d"
    and si: "spawned_of inits = []" by simp_all
  from rs ri have "runs_of ?inits = []" by simp
  then have nf: "RunEff h \<notin> set ?inits" by (rule runs_of_Nil)
  from tr assms(2) have "?inits @ ?runs = pre @ RunEff h # post" by simp
  from split_after_prefix [OF this nf] obtain b where "pre = ?inits @ b" by blast
  then have pre: "pre = (spawned @ inits) @ ?get # b" by simp
  from rs ri have r0: "runs_of (spawned @ inits) = []" by simp
  from isp ii have i0: "inits_of (spawned @ inits) = map snd d" by simp
  have ok: "\<forall>h' \<in> snd ` set d. failure (InitRef h') = None"
    using ray_get_None [OF rg] by force
  from mem have "h \<in> set (runs_of tr)" by (rule runs_of_mem)
  with tr rs ri have hd: "h \<in> snd ` set d"
    by (simp add: runs_of_map_RunEff)
  have sub: "snd ` set (spawned_of tr) \<subseteq> snd ` set d"
    if "distinct (pipeline_ids r)" and "distinct (map fst (process_classes (runner_system r)))"
  proof -
    have "placed (ray_processes r) []" by (simp add: placed_def)
    from spawn_pipelines_placed [OF sp this that(2) that(1)] have "placed d spawned" by simp
    from placed_mem [OF this] tr si show ?thesis
      by (simp add: spawned_of_runs)
  qed
  from pre r0 i0 ok hd sub d show ?thesis by blast
qed

theorem init_awaited_before_run_witness:
  "(\<exists>a b. [SpawnEff 0 ''orders'' example_class 0 ''postgresql://db/es'',
            SpawnEff 1 ''payments'' example_class 0 ''postgresql://db/es'',
            InitEff 0 [] [(''payments'', 1)],
            InitEff 1 [(''orders'', RayNotificationLog 0 5)] [],
            GetEff [InitRef 0, InitRef 1]] =
           a @ GetEff (map (\<lambda>(key, h). InitRef h) (ray_processes example_started)) # b \<and>
           inits_of a = map snd (ray_processes example_started)) \<and>
   map snd (ray_processes example_started) = [0, 1]"
proof -
  have tr: "example_effects =
            [SpawnEff 0 ''orders'' example_class 0 ''postgresql://db/es'',
             SpawnEff 1 ''payments'' example_class 0 ''postgresql://db/es'',
             InitEff 0 [] [(''payments'', 1)],
             InitEff 1 [(''orders'', RayNotificationLog 0 5)] [],
             GetEff [InitRef 0, InitRef 1]] @ RunEff 0 # [RunEff 1, GetEff [RunRef 0, RunRef 1]]"
    by (simp add: example_effects_def)
  from init_awaited_before_run [OF example_start tr]
  have "\<exists>a b. [SpawnEff 0 ''orders'' example_class 0 ''postgresql://db/es'',
            SpawnEff 1 ''payments'' example_class 0 ''postgresql://db/es'',
            InitEff 0 [] [(''payments'', 1)],
            InitEff 1 [(''orders'', RayNotificationLog 0 5)] [],
            GetEff [InitRef 0, InitRef 1]] =
           a @ GetEff (map (\<lambda>(key, h). InitRef h) (ray_processes example_started)) # b \<and>
           inits_of a = map snd (ray_processes example_started)"
    by blast
  moreover have "map snd (ray_processes example_started) = [0, 1]"
    by (simp add: example_started_def)
  ultimately show ?thesis by blast
qed

text \<open>
  C6, as the claim states it, fails on the class of the exception: without an
  infrastructure class \<^verbatim>\<open>start\<close> raises \<^verbatim>\<open>ProgrammingError\<close>, and there is no
  \<^verbatim>\<open>ConfigurationError\<close>.
\<close>

theorem start_raises_programming_error:
  "fst (start unconfigured_runner None 0 no_failure) =
     Some (ProgrammingError ''infrastructure_class is not set'') \<and>
   class_name (ProgrammingError ''infrastructure_class is not set'') \<noteq> ''ConfigurationError''"
  by (simp add: start_def unconfigured_runner_def example_runner_def example_system_def
      example_class_def)

text \<open>
  C6, amended. When some process class is not an instance of
  \<^verbatim>\<open>ApplicationWithConcreteInfrastructure\<close> and the infrastructure class is not set, or is
  not a subclass of it, \<^verbatim>\<open>start\<close> raises \<^verbatim>\<open>ProgrammingError\<close>; it has then created no actor,
  made no remote call and left the runner as it was.
\<close>

theorem start_fails_fast:
  assumes "c \<in> snd ` set (process_classes (runner_system r))"
    and "\<not> concrete_instance c"
    and "runner_infrastructure_class r = None \<or>
         (\<exists>ic. runner_infrastructure_class r = Some ic \<and> \<not> concrete_subclass ic)"
  shows "\<exists>m. start r environ next failure = (Some (ProgrammingError m), r, [])"
proof -
  from assms(1) have "c \<in> set (map snd (process_classes (runner_system r)))" by simp
  from check_classes_fails [OF this assms(2) assms(3)] obtain m where
    "check_classes (runner_infrastructure_class r)
       (map snd (process_classes (runner_system r))) = Some (ProgrammingError m)"
    by blast
  then have "start r environ next failure = (Some (ProgrammingError m), r, [])"
    by (simp add: start_def)
  then show ?thesis by blast
qed

theorem start_fails_fast_witness:
  "\<exists>m. start unconfigured_runner None 0 no_failure =
          (Some (ProgrammingError m), unconfigured_runner, [])"
proof -
  have 1: "example_class \<in> snd ` set (process_classes (runner_system unconfigured_runner))"
    by (simp add: unconfigured_runner_def example_runner_def example_system_def)
  have 2: "\<not> concrete_instance example_class"
    by (simp add: example_class_def)
  have 3: "runner_infrastructure_class unconfigured_runner = None \<or>
         (\<exists>ic. runner_infrastructure_class unconfigured_runner = Some ic \<and> \<not> concrete_subclass ic)"
    by (simp add: unconfigured_runner_def)
  from start_fails_fast [OF 1 2 3] show ?thesis .
qed


end
